theory Spec2Isabelle
  imports Main "HOL-Library.Char_ord" "HOL-Library.Countable"
begin

section \<open>Text helpers shared by the three runtimes\<close>

text \<open>
  The repository holds three engines that simulate stepping through a text file: the Go
  engine (\<^verbatim>\<open>mock-go/internal/engine/engine.go\<close>), the TypeScript runtime
  (\<^verbatim>\<open>mock-ts/src/runtime.ts\<close>) and the C\# engine (\<^verbatim>\<open>RuntimeEngine\<close>).
  Source text is modelled as \<^typ>\<open>string\<close>, one \<^typ>\<open>char\<close> per byte; all
  character classes the engines use are ASCII classes. White space is the ASCII white
  space that \<^verbatim>\<open>strings.TrimSpace\<close>, \<^verbatim>\<open>String.prototype.trim\<close> and
  \<^verbatim>\<open>string.IsNullOrWhiteSpace\<close> agree on (tab, line feed, vertical tab, form feed,
  carriage return, space); the non-ASCII white space they also strip is outside the model.
\<close>

definition isLetter :: "char \<Rightarrow> bool" where
  "isLetter c = ((CHR ''a'' \<le> c \<and> c \<le> CHR ''z'') \<or> (CHR ''A'' \<le> c \<and> c \<le> CHR ''Z''))"

definition isDigit :: "char \<Rightarrow> bool" where
  "isDigit c = (CHR ''0'' \<le> c \<and> c \<le> CHR ''9'')"

definition isAlnum :: "char \<Rightarrow> bool" where
  "isAlnum c = (isLetter c \<or> isDigit c)"

text \<open>The regular-expression class \<^verbatim>\<open>\w\<close>, which decides the word boundary \<^verbatim>\<open>\b\<close>.\<close>

definition isWordChar :: "char \<Rightarrow> bool" where
  "isWordChar c = (isAlnum c \<or> c = CHR ''_'')"

definition isSpace :: "char \<Rightarrow> bool" where
  "isSpace c = (c = CHR 0x09 \<or> c = CHR 0x0A \<or> c = CHR 0x0B \<or> c = CHR 0x0C \<or> c = CHR 0x0D \<or> c = CHR '' '')"

text \<open>\<^verbatim>\<open>strings.TrimSpace\<close> (Go), \<^verbatim>\<open>trim()\<close> (TypeScript), \<^verbatim>\<open>Trim()\<close> (C\#).\<close>

definition TrimSpace :: "string \<Rightarrow> string" where
  "TrimSpace s = rev (dropWhile isSpace (rev (dropWhile isSpace s)))"

fun HasPrefix :: "string \<Rightarrow> string \<Rightarrow> bool" where
  "HasPrefix s [] = True"
| "HasPrefix [] (p # ps) = False"
| "HasPrefix (c # cs) (p # ps) = (c = p \<and> HasPrefix cs ps)"

text \<open>\<^verbatim>\<open>strings.Contains\<close>, \<^verbatim>\<open>indexOf(..) >= 0\<close>: the second string occurs in the first.\<close>

fun Contains :: "string \<Rightarrow> string \<Rightarrow> bool" where
  "Contains [] sub = (sub = [])"
| "Contains (c # cs) sub = (HasPrefix (c # cs) sub \<or> Contains cs sub)"

section \<open>The Go engine: data model\<close>

datatype Word = Word (wName: string) (wLine: int) (wIndex: int)

datatype Breakpoint = Breakpoint (ID: int) (Line: int) (Verified: bool)

text \<open>
  A value of the local table (\<^verbatim>\<open>locals map[string]any\<close>): what \<^verbatim>\<open>parseToken\<close>
  produces, or whatever the client passes to \<^verbatim>\<open>SetVariable\<close>.
\<close>

datatype val = VBool bool | VStr string | VInt int | VList "(string \<times> val) list"

text \<open>The calls the engine makes on its \<^verbatim>\<open>Debugger\<close> sink, in the order made.\<close>

datatype event =
    OnStopOnEntry int "int option"
  | OnStopOnStep int "int option"
  | OnStopOnBreakpoint int "int option"
  | OnStopOnException int "string option" "int option"
  | OnStopOnDataBreakpoint int "int option"
  | OnStopOnInstructionBreakpoint int "int option"
  | OnStopOnPause int "int option"
  | OnBreakpointValidated int bool
  | OnOutput string string string int int
  | OnEnd

text \<open>A run-time panic of the Go program: the only one the engine can raise is a slice index out of range.\<close>

datatype panic = IndexOutOfRange

record Engine =
  dbg :: "event list"
  sourceFile :: string
  sourceLines :: "string list"
  currentLine :: int
  currentCol :: "int option"
  instruction :: int
  instructions :: "Word list"
  starts :: "int list"
  ends :: "int list"
  nextBpID :: int
  bps :: "string \<rightharpoonup> Breakpoint list"
  namedException :: "string option"
  otherExceptions :: bool
  dataBps :: "string \<rightharpoonup> string"
  instrBps :: "int set"
  variables :: "string set"
  locals :: "string \<rightharpoonup> val"
  paused :: bool

text \<open>\<^verbatim>\<open>New\<close>: no source, empty tables, breakpoint ids start at 1.\<close>

definition New :: Engine where
  "New = \<lparr> dbg = [], sourceFile = [], sourceLines = [], currentLine = 0, currentCol = None,
     instruction = 0, instructions = [], starts = [], ends = [], nextBpID = 1,
     bps = Map.empty, namedException = None, otherExceptions = False, dataBps = Map.empty,
     instrBps = {}, variables = {}, locals = Map.empty, paused = False \<rparr>"

definition emit :: "event \<Rightarrow> Engine \<Rightarrow> Engine" where
  "emit ev e = e\<lparr> dbg := dbg e @ [ev] \<rparr>"

text \<open>Indexing a slice panics out of range.\<close>

definition index :: "'a list \<Rightarrow> int \<Rightarrow> panic + 'a" where
  "index xs i = (if 0 \<le> i \<and> i < int (length xs) then Inr (xs ! nat i) else Inl IndexOutOfRange)"

subsection \<open>Loading a source\<close>

text \<open>
  \<^verbatim>\<open>getWords\<close>: all matches of \<^verbatim>\<open>[a-zA-Z]+\<close>, left to right, each with its byte
  offset. The accumulator holds the letters of the run being read (reversed) and where
  it started.
\<close>

fun wordScan :: "int \<Rightarrow> nat \<Rightarrow> string \<Rightarrow> nat \<Rightarrow> string \<Rightarrow> Word list" where
  "wordScan l i run st [] = (if run = [] then [] else [Word (rev run) l (int st)])"
| "wordScan l i run st (c # cs) =
     (if isLetter c then wordScan l (Suc i) (c # run) (if run = [] then i else st) cs
      else (if run = [] then [] else [Word (rev run) l (int st)]) @ wordScan l (Suc i) [] 0 cs)"

definition getWords :: "int \<Rightarrow> string \<Rightarrow> Word list" where
  "getWords l line = wordScan l 0 [] 0 line"

text \<open>
  \<^verbatim>\<open>splitLines\<close> reads the text with a \<^verbatim>\<open>bufio.Scanner\<close>: lines end at a line
  feed, one trailing carriage return is dropped, an empty rest after the last line feed
  is no line, and the scanner gives up (keeping the lines read so far) at a line of
  \<^verbatim>\<open>MaxScanTokenSize\<close> bytes or more.
\<close>

definition MaxScanTokenSize :: nat where
  "MaxScanTokenSize = 65536"

definition dropCR :: "string \<Rightarrow> string" where
  "dropCR s = (if s \<noteq> [] \<and> last s = CHR 0x0D then butlast s else s)"

fun scanLines :: "string \<Rightarrow> string \<Rightarrow> string list" where
  "scanLines acc [] =
     (if acc = [] \<or> MaxScanTokenSize \<le> length acc then [] else [dropCR (rev acc)])"
| "scanLines acc (c # cs) =
     (if c = CHR 0x0A
      then (if MaxScanTokenSize \<le> length acc then [] else dropCR (rev acc) # scanLines [] cs)
      else scanLines (c # acc) cs)"

definition splitLines :: "string \<Rightarrow> string list" where
  "splitLines s = scanLines [] s"

text \<open>
  The loop of \<^verbatim>\<open>LoadSource\<close>: per line, push the stream's length onto \<^verbatim>\<open>starts\<close>,
  append the line's words, push the new length onto \<^verbatim>\<open>ends\<close>.
\<close>

definition loadLine :: "int \<Rightarrow> string \<Rightarrow> Word list \<times> int list \<times> int list \<Rightarrow> Word list \<times> int list \<times> int list" where
  "loadLine i line acc =
     (case acc of (ins, st, en) \<Rightarrow>
        let st' = st @ [int (length ins)];
            ins' = ins @ getWords i line;
            en' = en @ [int (length ins')]
        in (ins', st', en'))"

fun loadLoop :: "int \<Rightarrow> string list \<Rightarrow> Word list \<times> int list \<times> int list \<Rightarrow> Word list \<times> int list \<times> int list" where
  "loadLoop i [] acc = acc"
| "loadLoop i (line # rest) acc = loadLoop (i + 1) rest (loadLine i line acc)"

text \<open>
  \<^verbatim>\<open>filepath.Abs\<close> depends on the process's working directory, so the path
  normalisation \<^verbatim>\<open>abs\<close> is a parameter (\<open>absf\<close>) of every operation that uses it.
\<close>

definition LoadSource :: "(string \<Rightarrow> string) \<Rightarrow> string \<Rightarrow> string \<Rightarrow> Engine \<Rightarrow> Engine" where
  "LoadSource absf path contents e =
     (let ls = splitLines contents in
      case loadLoop 0 ls ([], [], []) of (ins, st, en) \<Rightarrow>
        e\<lparr> sourceFile := absf path, sourceLines := ls, currentLine := 0, currentCol := None,
           instructions := ins, starts := st, ends := en,
           instruction := (if 0 < length st then st ! 0 else 0) \<rparr>)"

subsection \<open>The regular expressions of \<^verbatim>\<open>executeLine\<close>\<close>

text \<open>
  \<open>upToLast q s\<close> is the prefix of \<open>s\<close> that ends with the last \<open>q\<close> in \<open>s\<close>
  (empty when there is none): what a greedy \<^verbatim>\<open>.*\<close> followed by \<open>q\<close> consumes.
  The dot does not match a line terminator, so the greedy part stays within
  \<open>sameLine js s\<close>: in Go's \<^verbatim>\<open>regexp\<close> the only terminator is the line feed, in a
  JavaScript expression (\<open>js\<close>) the carriage return is one too (and the separators
  U+2028 and U+2029, which are not ASCII).
\<close>

definition upToLast :: "char \<Rightarrow> string \<Rightarrow> string" where
  "upToLast q s = rev (dropWhile (\<lambda>c. c \<noteq> q) (rev s))"

definition sameLine :: "bool \<Rightarrow> string \<Rightarrow> string" where
  "sameLine js s = takeWhile (\<lambda>c. c \<noteq> CHR 0x0A \<and> \<not> (js \<and> c = CHR 0x0D)) s"

text \<open>The alternative \<^verbatim>\<open>[0-9]+(\.[0-9]+)?\<close> at the head of a string.\<close>

definition numberTok :: "string \<Rightarrow> string option" where
  "numberTok s =
     (let d = takeWhile isDigit s; r = dropWhile isDigit s in
      if d = [] then None
      else (case r of
              [] \<Rightarrow> Some d
            | c # r' \<Rightarrow>
                if c = CHR ''.'' \<and> takeWhile isDigit r' \<noteq> []
                then Some (d @ c # takeWhile isDigit r') else Some d))"

text \<open>
  The value group \<^verbatim>\<open>(false|true|[0-9]+(\.[0-9]+)?|\".*\"|\{.*\})\<close> at the head of a
  string, alternatives tried in the order written. \<open>ci\<close> says that the expression
  is the TypeScript runtime's: a JavaScript expression with the flag \<^verbatim>\<open>i\<close>, hence
  case-insensitive. The Go engine's is case-sensitive.
\<close>

definition lower :: "char \<Rightarrow> char" where
  "lower c = (if CHR ''A'' \<le> c \<and> c \<le> CHR ''Z'' then char_of (of_char c + (32::nat)) else c)"

definition kwPrefix :: "bool \<Rightarrow> string \<Rightarrow> string \<Rightarrow> bool" where
  "kwPrefix ci s kw = (if ci then HasPrefix (map lower s) kw else HasPrefix s kw)"

definition valueTok :: "bool \<Rightarrow> string \<Rightarrow> string option" where
  "valueTok ci s =
     (if kwPrefix ci s ''false'' then Some (take 5 s)
      else if kwPrefix ci s ''true'' then Some (take 4 s)
      else (case numberTok s of
              Some d \<Rightarrow> Some d
            | None \<Rightarrow>
               (case s of
                  [] \<Rightarrow> None
                | c # r \<Rightarrow>
                    if c = CHR 0x22 \<and> upToLast (CHR 0x22) (sameLine ci r) \<noteq> []
                      then Some (c # upToLast (CHR 0x22) (sameLine ci r))
                    else if c = CHR ''{'' \<and> upToLast (CHR ''}'') (sameLine ci r) \<noteq> []
                      then Some (c # upToLast (CHR ''}'') (sameLine ci r))
                    else None)))"

text \<open>
  One match of \<^verbatim>\<open>\$([a-zA-Z][a-zA-Z0-9]*)(=(false|true|...))?\<close> at the head of a
  string: the name (greedy), the value token when the optional group took part, and
  the length of the whole match.
\<close>

definition rwMatchAt :: "bool \<Rightarrow> string \<Rightarrow> (string \<times> string option \<times> nat) option" where
  "rwMatchAt ci s =
     (case s of
        d # c # cs \<Rightarrow>
          if d = CHR ''$'' \<and> isLetter c then
            (let name = c # takeWhile isAlnum cs; rest = dropWhile isAlnum cs in
             case rest of
               [] \<Rightarrow> Some (name, None, 1 + length name)
             | q # r \<Rightarrow>
                 (if q = CHR ''='' then
                    (case valueTok ci r of
                       Some v \<Rightarrow> Some (name, Some v, 1 + length name + 1 + length v)
                     | None \<Rightarrow> Some (name, None, 1 + length name))
                  else Some (name, None, 1 + length name)))
          else None
      | _ \<Rightarrow> None)"

text \<open>
  All matches, left to right and not overlapping (\<^verbatim>\<open>FindAllStringSubmatchIndex\<close>,
  a global \<^verbatim>\<open>exec\<close> loop): the first argument counts the characters of the last
  match still to be skipped.
\<close>

fun rwFindAll :: "bool \<Rightarrow> nat \<Rightarrow> string \<Rightarrow> (string \<times> string option) list" where
  "rwFindAll ci k [] = []"
| "rwFindAll ci (Suc k) (c # cs) = rwFindAll ci k cs"
| "rwFindAll ci 0 (c # cs) =
     (case rwMatchAt ci (c # cs) of
        None \<Rightarrow> rwFindAll ci 0 cs
      | Some (name, v, len) \<Rightarrow> (name, v) # rwFindAll ci (len - 1) cs)"

text \<open>One match of \<^verbatim>\<open>(log|prio|out|err)\(([^\)]*)\)\<close> at the head of a string.\<close>

definition logKw :: "string \<Rightarrow> string \<Rightarrow> (string \<times> string \<times> nat) option" where
  "logKw kw s =
     (if HasPrefix s (kw @ ''('') then
        (let rest = drop (length kw + 1) s;
             payload = takeWhile (\<lambda>c. c \<noteq> CHR '')'') rest in
         if dropWhile (\<lambda>c. c \<noteq> CHR '')'') rest = [] then None
         else Some (kw, payload, length kw + 1 + length payload + 1))
      else None)"

definition logMatchAt :: "string \<Rightarrow> (string \<times> string \<times> nat) option" where
  "logMatchAt s =
     (case logKw ''log'' s of Some m \<Rightarrow> Some m | None \<Rightarrow>
      (case logKw ''prio'' s of Some m \<Rightarrow> Some m | None \<Rightarrow>
       (case logKw ''out'' s of Some m \<Rightarrow> Some m | None \<Rightarrow> logKw ''err'' s)))"

text \<open>All matches with their start offsets: (category, payload, offset).\<close>

fun logFindAll :: "nat \<Rightarrow> nat \<Rightarrow> string \<Rightarrow> (string \<times> string \<times> nat) list" where
  "logFindAll k i [] = []"
| "logFindAll (Suc k) i (c # cs) = logFindAll k (Suc i) cs"
| "logFindAll 0 i (c # cs) =
     (case logMatchAt (c # cs) of
        None \<Rightarrow> logFindAll 0 (Suc i) cs
      | Some (cat, payload, len) \<Rightarrow> (cat, payload, i) # logFindAll (len - 1) (Suc i) cs)"

text \<open>
  The first match of \<^verbatim>\<open>exception\((.*)\)\<close>: its captured group, greedy up to the
  last closing parenthesis of the line. The expression is case-sensitive in both the
  Go engine and the TypeScript runtime (\<open>js\<close>).
\<close>

fun excName :: "bool \<Rightarrow> string \<Rightarrow> string option" where
  "excName js [] = None"
| "excName js (c # cs) =
     (if HasPrefix (c # cs) ''exception('' \<and> upToLast (CHR '')'') (sameLine js (drop 10 (c # cs))) \<noteq> []
      then Some (butlast (upToLast (CHR '')'') (sameLine js (drop 10 (c # cs)))))
      else excName js cs)"

text \<open>
  Whether \<^verbatim>\<open>\bexception\b\<close> matches somewhere; the first argument says whether the
  character before the current position is a word character.
\<close>

fun excTokenFrom :: "bool \<Rightarrow> string \<Rightarrow> bool" where
  "excTokenFrom pw [] = False"
| "excTokenFrom pw (c # cs) =
     ((\<not> pw \<and> HasPrefix (c # cs) ''exception'' \<and>
       (case drop 9 (c # cs) of [] \<Rightarrow> True | d # _ \<Rightarrow> \<not> isWordChar d))
      \<or> excTokenFrom (isWordChar c) cs)"

definition excToken :: "string \<Rightarrow> bool" where
  "excToken s = excTokenFrom False s"

subsection \<open>Per-line execution\<close>

text \<open>
  The instruction-breakpoint loops at the head of \<^verbatim>\<open>executeLine\<close>:
  \<^verbatim>\<open>for e.instruction < end { e.instruction++; if hit { return true } }\<close> and its
  mirror image. The result says whether a registered address was reached, and where the
  instruction pointer stands. The pointer moves only between the line's bounds (which
  are slice lengths), so the 64-bit arithmetic never wraps.
\<close>

function scanForward :: "int set \<Rightarrow> int \<Rightarrow> int \<Rightarrow> bool \<times> int" where
  "scanForward B end ip =
     (if ip < end then (if ip + 1 \<in> B then (True, ip + 1) else scanForward B end (ip + 1))
      else (False, ip))"
  by pat_completeness auto
termination
  by (relation "measure (\<lambda>(B, end, ip). nat (end - ip))") auto

function scanReverse :: "int set \<Rightarrow> int \<Rightarrow> int \<Rightarrow> bool \<times> int" where
  "scanReverse B start ip =
     (if start \<le> ip then (if ip - 1 \<in> B then (True, ip - 1) else scanReverse B start (ip - 1))
      else (False, ip))"
  by pat_completeness auto
termination
  by (relation "measure (\<lambda>(B, start, ip). nat (ip - start + 1))") auto

definition getLine :: "Engine \<Rightarrow> int \<Rightarrow> string" where
  "getLine e line =
     (if line < 0 \<or> int (length (sourceLines e)) \<le> line then [] else sourceLines e ! nat line)"

text \<open>\<^verbatim>\<open>strings.Trim(t, "\"")\<close>: all leading and trailing double quotes removed.\<close>

definition trimQuotes :: "string \<Rightarrow> string" where
  "trimQuotes t = rev (dropWhile (\<lambda>c. c = CHR 0x22) (rev (dropWhile (\<lambda>c. c = CHR 0x22) t)))"

definition parseToken :: "string \<Rightarrow> val" where
  "parseToken t =
     (if t = ''true'' then VBool True
      else if t = ''false'' then VBool False
      else if HasPrefix t [CHR 0x22] \<and> HasPrefix (rev t) [CHR 0x22] then VStr (trimQuotes t)
      else if HasPrefix t ''{'' then
        VList [(''fBool'', VBool True), (''fInteger'', VInt 123),
               (''fString'', VStr ''hello''), (''flazyInteger'', VInt 321)]
      else VStr t)"

text \<open>
  The loop over the variable tokens of the line. An assignment to a name already seen
  is a write; every assignment marks the name seen and stores the parsed value; a bare
  reference to a name already seen is a read. A classified access that occurs in the
  name's data-breakpoint mode stops the line.
\<close>

fun rwVarLoop :: "int \<Rightarrow> (string \<times> string option) list \<Rightarrow> Engine \<Rightarrow> bool \<times> Engine" where
  "rwVarLoop ln [] e = (False, e)"
| "rwVarLoop ln ((name, tok) # ms) e =
     (let access =
            (case tok of
               Some t \<Rightarrow> if name \<in> variables e then Some ''write'' else None
             | None \<Rightarrow> if name \<in> variables e then Some ''read'' else None);
          e1 =
            (case tok of
               Some t \<Rightarrow> e\<lparr> variables := insert name (variables e),
                               locals := (locals e)(name \<mapsto> parseToken t) \<rparr>
             | None \<Rightarrow> e)
      in case access of
           None \<Rightarrow> rwVarLoop ln ms e1
         | Some a \<Rightarrow>
             (case dataBps e1 name of
                None \<Rightarrow> rwVarLoop ln ms e1
              | Some flg \<Rightarrow>
                  if Contains flg a
                  then (True, emit (OnStopOnDataBreakpoint ln (currentCol e1)) e1)
                  else rwVarLoop ln ms e1))"

fun outputLoop :: "int \<Rightarrow> (string \<times> string \<times> nat) list \<Rightarrow> Engine \<Rightarrow> Engine" where
  "outputLoop ln [] e = e"
| "outputLoop ln ((cat, payload, i) # ms) e =
     outputLoop ln ms (emit (OnOutput cat payload (sourceFile e) ln (int i)) e)"

text \<open>The exception filters, applied to the trimmed text of the line.\<close>

definition exceptionCheck :: "int \<Rightarrow> string \<Rightarrow> Engine \<Rightarrow> bool \<times> Engine" where
  "exceptionCheck ln text e =
     (case excName False text of
        Some m \<Rightarrow>
          (let ex = TrimSpace m in
           if namedException e = Some ex
             then (True, emit (OnStopOnException ln (Some ex) (currentCol e)) e)
           else if otherExceptions e
             then (True, emit (OnStopOnException ln None (currentCol e)) e)
           else (False, e))
      | None \<Rightarrow>
          if excToken text \<and> otherExceptions e
            then (True, emit (OnStopOnException ln None (currentCol e)) e)
          else (False, e))"

text \<open>
  \<^verbatim>\<open>executeLine\<close>: reading \<^verbatim>\<open>e.starts[ln]\<close> and \<^verbatim>\<open>e.ends[ln]\<close> panics
  when \<open>ln\<close> is not a line of the loaded source; then come the instruction
  breakpoints, the variable accesses, the outputs and the exceptions, in this order.
\<close>

definition executeLine :: "int \<Rightarrow> bool \<Rightarrow> Engine \<Rightarrow> panic + (bool \<times> Engine)" where
  "executeLine ln reverse e =
     (case index (starts e) ln of
        Inl p \<Rightarrow> Inl p
      | Inr start \<Rightarrow>
     (case index (ends e) ln of
        Inl p \<Rightarrow> Inl p
      | Inr end \<Rightarrow>
     (case (if reverse then scanReverse (instrBps e) start (instruction e)
            else scanForward (instrBps e) end (instruction e)) of
        (hit, ip) \<Rightarrow>
     (let e1 = e\<lparr> instruction := ip \<rparr> in
      if hit then Inr (True, emit (OnStopOnInstructionBreakpoint ln (currentCol e1)) e1)
      else
       (let text = TrimSpace (getLine e1 ln) in
        case rwVarLoop ln (rwFindAll False 0 text) e1 of
          (stop, e2) \<Rightarrow>
            if stop then Inr (True, e2)
            else Inr (exceptionCheck ln text (outputLoop ln (logFindAll 0 0 text) e2)))))))"

subsection \<open>Moving between lines\<close>

definition updateCurrentLine :: "bool \<Rightarrow> Engine \<Rightarrow> bool \<times> Engine" where
  "updateCurrentLine reverse e =
     (if reverse then
        (if 0 < currentLine e then (False, e\<lparr> currentLine := currentLine e - 1 \<rparr>)
         else (True, emit (OnStopOnEntry 0 None) (e\<lparr> currentLine := 0, currentCol := None \<rparr>)))
      else
        (if currentLine e < int (length (sourceLines e)) - 1
         then (False, e\<lparr> currentLine := currentLine e + 1 \<rparr>)
         else (True, e\<lparr> currentCol := None \<rparr>)))"

text \<open>
  The loop of \<^verbatim>\<open>findNextStatement\<close>, from line \<open>ln\<close> on. The \<^verbatim>\<open>range\<close> loop
  copies each breakpoint, so setting \<^verbatim>\<open>bp.Verified\<close> changes no stored breakpoint;
  only the notification is observable.
\<close>

function findNextFrom :: "bool \<Rightarrow> int \<Rightarrow> Engine \<Rightarrow> panic + (bool \<times> Engine)" where
  "findNextFrom reverse ln e =
     (case (case bps e (sourceFile e) of
              None \<Rightarrow> None
            | Some list \<Rightarrow> find (\<lambda>bp. Line bp = ln) list) of
        Some bp \<Rightarrow>
          (let e1 = (if \<not> Verified bp then emit (OnBreakpointValidated (ID bp) True) e else e);
               e2 = e1\<lparr> currentLine := ln \<rparr>
           in Inr (True, emit (OnStopOnBreakpoint ln (currentCol e2)) e2))
      | None \<Rightarrow>
     (case (if reverse then index (starts e) ln
            else (case index (ends e) ln of Inl p \<Rightarrow> Inl p | Inr v \<Rightarrow> Inr (v - 1))) of
        Inl p \<Rightarrow> Inl p
      | Inr addr \<Rightarrow>
          if addr \<in> instrBps e then
            (let e2 = e\<lparr> currentLine := ln \<rparr>
             in Inr (True, emit (OnStopOnInstructionBreakpoint ln (currentCol e2)) e2))
          else if TrimSpace (getLine e ln) \<noteq> [] then Inr (False, e\<lparr> currentLine := ln \<rparr>)
          else if reverse then
            (if ln \<le> 0 then Inr (False, e) else findNextFrom reverse (ln - 1) e)
          else
            (if int (length (sourceLines e)) \<le> ln + 1 then Inr (False, e)
             else findNextFrom reverse (ln + 1) e)))"
  by pat_completeness auto
termination
  by (relation "measure (\<lambda>(reverse, ln, e).
        if reverse then nat ln else nat (int (length (sourceLines e)) - ln))") auto

declare findNextFrom.simps [simp del]

definition findNextStatement :: "bool \<Rightarrow> Engine \<Rightarrow> panic + (bool \<times> Engine)" where
  "findNextStatement reverse e = findNextFrom reverse (currentLine e) e"

subsection \<open>Control operations\<close>

text \<open>
  The head of \<^verbatim>\<open>Continue\<close> and \<^verbatim>\<open>Next\<close>: the instruction pointer is put on the
  first instruction of the current line, or on its last one when running in reverse.
\<close>

definition normalize :: "bool \<Rightarrow> Engine \<Rightarrow> panic + Engine" where
  "normalize reverse e =
     (if 0 \<le> currentLine e \<and> currentLine e < int (length (starts e)) then
        (if reverse then
           (case index (ends e) (currentLine e) of
              Inl p \<Rightarrow> Inl p
            | Inr end \<Rightarrow> Inr (e\<lparr> instruction := (if 0 < end then end - 1 else 0) \<rparr>))
         else Inr (e\<lparr> instruction := starts e ! nat (currentLine e) \<rparr>))
      else Inr e)"

text \<open>
  The loop of \<^verbatim>\<open>Continue\<close> has no bound of its own (\<^verbatim>\<open>for { ... }\<close>), so it is a
  partial function: \<open>None\<close> would be a run that never returns, \<open>Some (Inl p)\<close> is a
  panic, \<open>Some (Inr e)\<close> the engine after the call.
\<close>

partial_function (option) ContinueLoop :: "bool \<Rightarrow> Engine \<Rightarrow> (panic + Engine) option" where
  "ContinueLoop reverse e =
     (if paused e then
        Some (Inr (emit (OnStopOnPause (currentLine e) (currentCol e)) (e\<lparr> paused := False \<rparr>)))
      else
        (case executeLine (currentLine e) reverse e of
           Inl p \<Rightarrow> Some (Inl p)
         | Inr (stop, e1) \<Rightarrow>
             if stop then Some (Inr e1)
             else
               (case updateCurrentLine reverse e1 of
                  (fin, e2) \<Rightarrow>
                    if fin then Some (Inr (emit OnEnd e2))
                    else
                      (case findNextStatement reverse e2 of
                         Inl p \<Rightarrow> Some (Inl p)
                       | Inr (stop2, e3) \<Rightarrow>
                           if stop2 then Some (Inr e3) else ContinueLoop reverse e3))))"

declare ContinueLoop.simps [code]

definition Continue :: "bool \<Rightarrow> Engine \<Rightarrow> (panic + Engine) option" where
  "Continue reverse e =
     (case normalize reverse e of
        Inl p \<Rightarrow> Some (Inl p)
      | Inr e0 \<Rightarrow> ContinueLoop reverse (e0\<lparr> paused := False \<rparr>))"

definition Next :: "bool \<Rightarrow> Engine \<Rightarrow> panic + Engine" where
  "Next reverse e =
     (case normalize reverse e of
        Inl p \<Rightarrow> Inl p
      | Inr e0 \<Rightarrow>
     (case executeLine (currentLine e0) reverse e0 of
        Inl p \<Rightarrow> Inl p
      | Inr (stop, e1) \<Rightarrow>
          if stop then Inr e1
          else
            (case updateCurrentLine reverse e1 of
               (fin, e2) \<Rightarrow>
                 (case (if \<not> fin then findNextStatement reverse e2 else Inr (False, e2)) of
                    Inl p \<Rightarrow> Inl p
                  | Inr (found, e3) \<Rightarrow>
                      Inr (emit (OnStopOnStep (currentLine e3) (currentCol e3)) e3)))))"

text \<open>
  The column is a 64-bit \<^verbatim>\<open>int\<close> that the client can set to any value, so its
  increments and decrements wrap around.
\<close>

definition wrap64 :: "int \<Rightarrow> int" where
  "wrap64 x = (x + 2 ^ 63) mod 2 ^ 64 - 2 ^ 63"

definition StepIn :: "int option \<Rightarrow> Engine \<Rightarrow> Engine" where
  "StepIn targetID e =
     (let e1 =
            (case targetID of
               Some t \<Rightarrow> e\<lparr> currentCol := Some t \<rparr>
             | None \<Rightarrow>
                 (case currentCol e of
                    Some c \<Rightarrow> e\<lparr> currentCol := Some (wrap64 (c + 1)) \<rparr>
                  | None \<Rightarrow> e\<lparr> currentCol := Some 1 \<rparr>))
      in emit (OnStopOnStep (currentLine e1) (currentCol e1)) e1)"

definition StepOut :: "Engine \<Rightarrow> Engine" where
  "StepOut e =
     (let e1 =
            (case currentCol e of
               Some c \<Rightarrow>
                 (let v = wrap64 (c - 1) in
                  if v \<le> 0 then e\<lparr> currentCol := None \<rparr> else e\<lparr> currentCol := Some v \<rparr>)
             | None \<Rightarrow> e)
      in emit (OnStopOnStep (currentLine e1) (currentCol e1)) e1)"

definition Pause :: "Engine \<Rightarrow> Engine" where
  "Pause e =
     (if paused e then e
      else
        (let e1 = e\<lparr> paused := True \<rparr>;
             e2 = emit (OnOutput ''stdout'' (TrimSpace (getLine e1 (currentLine e1)))
                          (sourceFile e1) (currentLine e1) 0) e1
         in emit (OnStopOnPause (currentLine e2) (currentCol e2)) e2))"

subsection \<open>Breakpoints, filters and variables\<close>

definition verifyLine :: "Engine \<Rightarrow> int \<Rightarrow> bool" where
  "verifyLine e line =
     (if line < 0 \<or> int (length (sourceLines e)) \<le> line then False
      else TrimSpace (sourceLines e ! nat line) \<noteq> [])"

text \<open>
  The loop of \<^verbatim>\<open>SetBreakpoints\<close> over the requested lines; the result list holds
  (id, verified, line) per line. The id counter is a 64-bit \<^verbatim>\<open>int\<close> starting at 1 and
  incremented once per breakpoint; it is modelled unbounded, as no run can set
  \<open>2\<^sup>6\<^sup>3\<close> breakpoints.
\<close>

fun setBreakpointsLoop :: "string \<Rightarrow> int list \<Rightarrow> Engine \<Rightarrow> (int \<times> bool \<times> int) list \<times> Engine" where
  "setBreakpointsLoop p [] e = ([], e)"
| "setBreakpointsLoop p (l # ls) e =
     (let verified = verifyLine e l;
          bp = Breakpoint (nextBpID e) l verified;
          e1 = e\<lparr> nextBpID := nextBpID e + 1 \<rparr>;
          e2 = e1\<lparr> bps := (bps e1)(p \<mapsto> (case bps e1 p of None \<Rightarrow> [] | Some list \<Rightarrow> list) @ [bp]) \<rparr>;
          e3 = emit (OnBreakpointValidated (ID bp) verified) e2
      in case setBreakpointsLoop p ls e3 of
           (res, e4) \<Rightarrow> ((ID bp, verified, l) # res, e4))"

definition SetBreakpoints :: "(string \<Rightarrow> string) \<Rightarrow> string \<Rightarrow> int list \<Rightarrow> Engine \<Rightarrow> (int \<times> bool \<times> int) list \<times> Engine" where
  "SetBreakpoints absf path lines e =
     (let p = absf path in setBreakpointsLoop p lines (e\<lparr> bps := (bps e)(p \<mapsto> []) \<rparr>))"

definition SetVariable :: "string \<Rightarrow> val \<Rightarrow> Engine \<Rightarrow> Engine" where
  "SetVariable name v e = e\<lparr> locals := (locals e)(name \<mapsto> v) \<rparr>"

definition SetExceptionsFilters :: "string option \<Rightarrow> bool \<Rightarrow> Engine \<Rightarrow> Engine" where
  "SetExceptionsFilters named others e = e\<lparr> namedException := named, otherExceptions := others \<rparr>"

definition SetDataBreakpoint :: "string \<Rightarrow> string \<Rightarrow> Engine \<Rightarrow> bool \<times> Engine" where
  "SetDataBreakpoint address access0 e =
     (let access = (if access0 = ''readWrite'' then ''read write'' else access0) in
      case dataBps e address of
        Some cur \<Rightarrow>
          if cur \<noteq> access then (True, e\<lparr> dataBps := (dataBps e)(address \<mapsto> ''read write'') \<rparr>)
          else (True, e)
      | None \<Rightarrow> (True, e\<lparr> dataBps := (dataBps e)(address \<mapsto> access) \<rparr>))"

definition SetInstructionBreakpoint :: "int \<Rightarrow> Engine \<Rightarrow> bool \<times> Engine" where
  "SetInstructionBreakpoint addr e = (True, e\<lparr> instrBps := insert addr (instrBps e) \<rparr>)"

section \<open>The TypeScript runtime\<close>

text \<open>
  \<^verbatim>\<open>MockRuntime\<close> of \<^verbatim>\<open>mock-ts/src/runtime.ts\<close>. Line numbers, addresses and
  breakpoint ids are modelled as integers. The column is a JavaScript number in full
  (\<open>jsnumber\<close> below): \<^verbatim>\<open>stepIn\<close> takes it from any number of the request, and
  \<^verbatim>\<open>stepIn\<close> and \<^verbatim>\<open>stepOut\<close> compute with it. Events are queued with
  \<^verbatim>\<open>setTimeout(.., 0)\<close> and so delivered in the order sent; the model records that
  order. The one table \<^verbatim>\<open>variables\<close> holds the values and decides at the same time
  which names have been seen. The text is taken after \<^verbatim>\<open>TextDecoder\<close> has decoded it
  (which drops a leading byte order mark).
\<close>

text \<open>
  A JavaScript number is an IEEE 754 binary64 value: a finite value (a rational; the
  positive zero is \<open>Num 0\<close>), the negative zero, an infinity, or not a number.
\<close>

datatype jsnumber = Num rat | NegZero | PosInf | NegInf | NaN

text \<open>The number of binary digits of a natural number.\<close>

fun bitLength :: "nat \<Rightarrow> nat" where
  "bitLength n = (if n = 0 then 0 else Suc (bitLength (n div 2)))"

declare bitLength.simps [simp del]

text \<open>Rounding a rational to the nearest integer, a tie to the even one.\<close>

definition roundHalfEven :: "rat \<Rightarrow> int" where
  "roundHalfEven q =
     (let n = \<lfloor>q\<rfloor>; r = q - of_int n
      in if 1 / 2 < r \<or> (r = 1 / 2 \<and> odd n) then n + 1 else n)"

text \<open>
  The binary64 value of an exact result \<open>x\<close> (round to nearest, ties to even). Every
  finite binary64 value is a multiple of 2 to the power -1074; \<open>X\<close> is the magnitude
  of \<open>x\<close> counted in that unit. A value has 53 significant binary digits, so the values
  near \<open>X\<close> are \<open>u\<close> units apart, where \<open>u\<close> is 1 while \<open>X\<close> has at most 53 digits and
  doubles with each further digit. A result that rounds to magnitude 2 to the power 1024
  or more is an infinity.
\<close>

definition toDouble :: "rat \<Rightarrow> jsnumber" where
  "toDouble x =
     (let X = \<bar>x\<bar> * 2 ^ 1074;
          u = 2 ^ (bitLength (nat \<lfloor>X\<rfloor>) - 53);
          y = of_int (roundHalfEven (X / u)) * u / 2 ^ 1074
      in if 2 ^ 1024 \<le> y then (if 0 < x then PosInf else NegInf)
         else if y = 0 \<and> x < 0 then NegZero
         else Num (if x < 0 then - y else y))"

text \<open>
  \<^verbatim>\<open>c + k\<close> and \<^verbatim>\<open>c - k\<close> for a finite constant \<open>k\<close> other than zero (the runtime
  adds and subtracts 1), \<^verbatim>\<open>c <= n\<close> for an integer \<open>n\<close>, and \<^verbatim>\<open>c === 0\<close>.
\<close>

definition jsPlus :: "jsnumber \<Rightarrow> rat \<Rightarrow> jsnumber" where
  "jsPlus c k =
     (case c of
        Num q \<Rightarrow> toDouble (q + k)
      | NegZero \<Rightarrow> toDouble k
      | PosInf \<Rightarrow> PosInf
      | NegInf \<Rightarrow> NegInf
      | NaN \<Rightarrow> NaN)"

definition jsLessEq :: "jsnumber \<Rightarrow> int \<Rightarrow> bool" where
  "jsLessEq c n =
     (case c of
        Num q \<Rightarrow> q \<le> of_int n
      | NegZero \<Rightarrow> 0 \<le> n
      | PosInf \<Rightarrow> False
      | NegInf \<Rightarrow> True
      | NaN \<Rightarrow> False)"

definition jsIsZero :: "jsnumber \<Rightarrow> bool" where
  "jsIsZero c = (c = Num 0 \<or> c = NegZero)"

datatype tsval =
    TBool bool
  | TStr string
  | TNum int
  | TParseFloat string
  | TVars "(string \<times> tsval) list"

datatype ts_event =
    TsStopOnEntry
  | TsStopOnStep int "jsnumber option"
  | TsStopOnBreakpoint int "jsnumber option"
  | TsStopOnDataBreakpoint string int "jsnumber option"
  | TsStopOnInstructionBreakpoint int "jsnumber option"
  | TsStopOnException "string option" int "jsnumber option"
  | TsStopOnPause int "jsnumber option"
  | TsBreakpointValidated int bool int
  | TsOutput string string string int int
  | TsEnd

datatype js_error = TypeError

record MockRuntime =
  ts_events :: "ts_event list"
  ts_sourceFile :: string
  ts_variables :: "string \<rightharpoonup> tsval"
  ts_sourceLines :: "string list"
  ts_instructions :: "Word list"
  ts_starts :: "int list"
  ts_ends :: "int list"
  ts_currentLine :: int
  ts_currentColumn :: "jsnumber option"
  ts_instruction :: int
  ts_breakPoints :: "string \<rightharpoonup> Breakpoint list"
  ts_instructionBreakpoints :: "int set"
  ts_breakpointId :: int
  ts_breakAddresses :: "string \<rightharpoonup> string"
  ts_namedException :: "string option"
  ts_otherExceptions :: bool

definition ts_new :: MockRuntime where
  "ts_new = \<lparr> ts_events = [], ts_sourceFile = [], ts_variables = Map.empty, ts_sourceLines = [],
     ts_instructions = [], ts_starts = [], ts_ends = [], ts_currentLine = 0,
     ts_currentColumn = None, ts_instruction = 0, ts_breakPoints = Map.empty,
     ts_instructionBreakpoints = {}, ts_breakpointId = 1, ts_breakAddresses = Map.empty,
     ts_namedException = None, ts_otherExceptions = False \<rparr>"

definition sendEvent :: "ts_event \<Rightarrow> MockRuntime \<Rightarrow> MockRuntime" where
  "sendEvent ev r = r\<lparr> ts_events := ts_events r @ [ev] \<rparr>"

text \<open>Reading an array element: \<^verbatim>\<open>undefined\<close> (\<open>None\<close>) outside the array.\<close>

definition at :: "'a list \<Rightarrow> int \<Rightarrow> 'a option" where
  "at xs i = (if 0 \<le> i \<and> i < int (length xs) then Some (xs ! nat i) else None)"

text \<open>The setter of \<^verbatim>\<open>currentLine\<close> also moves the instruction pointer: \<^verbatim>\<open>this.starts[x] ?? 0\<close>.\<close>

definition set_currentLine :: "int \<Rightarrow> MockRuntime \<Rightarrow> MockRuntime" where
  "set_currentLine x r =
     r\<lparr> ts_currentLine := x,
        ts_instruction := (case at (ts_starts r) x of Some v \<Rightarrow> v | None \<Rightarrow> 0) \<rparr>"

definition ts_getLine :: "MockRuntime \<Rightarrow> int \<Rightarrow> string" where
  "ts_getLine r line = (case at (ts_sourceLines r) line of Some l \<Rightarrow> TrimSpace l | None \<Rightarrow> [])"

text \<open>\<^verbatim>\<open>split(/\r?\n/)\<close>: at least one line; the rest after the last line feed is a line too.\<close>

fun tsSplit :: "string \<Rightarrow> string \<Rightarrow> string list" where
  "tsSplit acc [] = [rev acc]"
| "tsSplit acc (c # cs) =
     (if c = CHR 0x0A then dropCR (rev acc) # tsSplit [] cs else tsSplit (c # acc) cs)"

definition ts_loadLine :: "int \<Rightarrow> string \<Rightarrow> Word list \<times> int list \<times> int list \<Rightarrow> Word list \<times> int list \<times> int list" where
  "ts_loadLine l line0 acc =
     (case acc of (ins, st, en) \<Rightarrow>
        let line = TrimSpace line0;
            st' = st @ [int (length ins)];
            ins' = ins @ getWords l line;
            en' = en @ [int (length ins')]
        in (ins', st', en'))"

fun ts_loadLoop :: "int \<Rightarrow> string list \<Rightarrow> Word list \<times> int list \<times> int list \<Rightarrow> Word list \<times> int list \<times> int list" where
  "ts_loadLoop l [] acc = acc"
| "ts_loadLoop l (line # rest) acc = ts_loadLoop (l + 1) rest (ts_loadLine l line acc)"

definition initializeContents :: "string \<Rightarrow> MockRuntime \<Rightarrow> MockRuntime" where
  "initializeContents contents r =
     (let ls = tsSplit [] contents in
      case ts_loadLoop 0 ls ([], [], []) of (ins, st, en) \<Rightarrow>
        r\<lparr> ts_sourceLines := ls, ts_instructions := ins, ts_starts := st, ts_ends := en,
           ts_currentLine := 0,
           ts_instruction := (case at st 0 of Some v \<Rightarrow> v | None \<Rightarrow> 0) \<rparr>)"

text \<open>The value a token is stored as, in the order of the \<^verbatim>\<open>if\<close> chain.\<close>

definition ts_parse :: "string \<Rightarrow> tsval" where
  "ts_parse v =
     (if v = ''true'' then TBool True
      else if v = ''false'' then TBool False
      else if HasPrefix v [CHR 0x22] then TStr (butlast (tl v))
      else if HasPrefix v ''{'' then
        TVars [(''fBool'', TBool True), (''fInteger'', TNum 123),
               (''fString'', TStr ''hello''), (''flazyInteger'', TNum 321)]
      else TParseFloat v)"

fun ts_rwVarLoop :: "(string \<times> string option) list \<Rightarrow> MockRuntime \<Rightarrow> bool \<times> MockRuntime" where
  "ts_rwVarLoop [] r = (False, r)"
| "ts_rwVarLoop ((name, tok) # ms) r =
     (let access =
            (case tok of
               Some v \<Rightarrow> if ts_variables r name \<noteq> None then Some ''write'' else None
             | None \<Rightarrow> if ts_variables r name \<noteq> None then Some ''read'' else None);
          r1 =
            (case tok of
               Some v \<Rightarrow> r\<lparr> ts_variables := (ts_variables r)(name \<mapsto> ts_parse v) \<rparr>
             | None \<Rightarrow> r)
      in case access of
           None \<Rightarrow> ts_rwVarLoop ms r1
         | Some a \<Rightarrow>
             (case ts_breakAddresses r1 name of
                None \<Rightarrow> ts_rwVarLoop ms r1
              | Some accessType \<Rightarrow>
                  if Contains accessType a
                  then (True, sendEvent (TsStopOnDataBreakpoint a (ts_currentLine r1) (ts_currentColumn r1)) r1)
                  else ts_rwVarLoop ms r1))"

fun ts_outputLoop :: "int \<Rightarrow> (string \<times> string \<times> nat) list \<Rightarrow> MockRuntime \<Rightarrow> MockRuntime" where
  "ts_outputLoop ln [] r = r"
| "ts_outputLoop ln ((cat, payload, i) # ms) r =
     ts_outputLoop ln ms (sendEvent (TsOutput cat payload (ts_sourceFile r) ln (int i)) r)"

definition ts_exceptionCheck :: "string \<Rightarrow> MockRuntime \<Rightarrow> bool \<times> MockRuntime" where
  "ts_exceptionCheck line r =
     (case excName True line of
        Some m \<Rightarrow>
          (let exception = TrimSpace m in
           if ts_namedException r = Some exception
             then (True, sendEvent (TsStopOnException (Some exception) (ts_currentLine r) (ts_currentColumn r)) r)
           else if ts_otherExceptions r
             then (True, sendEvent (TsStopOnException None (ts_currentLine r) (ts_currentColumn r)) r)
           else (False, r))
      | None \<Rightarrow>
          if Contains line ''exception'' \<and> ts_otherExceptions r
            then (True, sendEvent (TsStopOnException None (ts_currentLine r) (ts_currentColumn r)) r)
          else (False, r))"

text \<open>
  \<^verbatim>\<open>executeLine\<close>: a comparison with \<^verbatim>\<open>undefined\<close> is false, so the
  instruction loop does not run when \<open>ln\<close> is no line of the source.
\<close>

definition ts_executeLine :: "int \<Rightarrow> bool \<Rightarrow> MockRuntime \<Rightarrow> bool \<times> MockRuntime" where
  "ts_executeLine ln reverse r =
     (case (if reverse
            then (case at (ts_starts r) ln of
                    Some start \<Rightarrow> scanReverse (ts_instructionBreakpoints r) start (ts_instruction r)
                  | None \<Rightarrow> (False, ts_instruction r))
            else (case at (ts_ends r) ln of
                    Some end \<Rightarrow> scanForward (ts_instructionBreakpoints r) end (ts_instruction r)
                  | None \<Rightarrow> (False, ts_instruction r))) of
        (hit, ip) \<Rightarrow>
     (let r1 = r\<lparr> ts_instruction := ip \<rparr> in
      if hit then
        (True, sendEvent (TsStopOnInstructionBreakpoint (ts_currentLine r1) (ts_currentColumn r1)) r1)
      else
       (let line = ts_getLine r1 ln in
        case ts_rwVarLoop (rwFindAll True 0 line) r1 of
          (stop, r2) \<Rightarrow>
            if stop then (True, r2)
            else ts_exceptionCheck line (ts_outputLoop ln (logFindAll 0 0 line) r2))))"

definition ts_updateCurrentLine :: "bool \<Rightarrow> MockRuntime \<Rightarrow> bool \<times> MockRuntime" where
  "ts_updateCurrentLine reverse r =
     (if reverse then
        (if 0 < ts_currentLine r then (False, set_currentLine (ts_currentLine r - 1) r)
         else (True, sendEvent TsStopOnEntry ((set_currentLine 0 r)\<lparr> ts_currentColumn := None \<rparr>)))
      else
        (if ts_currentLine r < int (length (ts_sourceLines r)) - 1
         then (False, set_currentLine (ts_currentLine r + 1) r)
         else (True, sendEvent TsEnd (r\<lparr> ts_currentColumn := None \<rparr>))))"

text \<open>
  \<^verbatim>\<open>findNextStatement\<close>: the \<^verbatim>\<open>for\<close> loop from line \<open>ln\<close> on, then the optional
  step event (\<open>stepEvent\<close> says whether \<^verbatim>\<open>'stopOnStep'\<close> was passed). Here the
  breakpoint found is the stored object, so marking it verified changes the table.
\<close>

fun markVerified :: "int \<Rightarrow> Breakpoint list \<Rightarrow> Breakpoint list" where
  "markVerified ln [] = []"
| "markVerified ln (bp # rest) =
     (if Line bp = ln then Breakpoint (ID bp) (Line bp) True # rest else bp # markVerified ln rest)"

definition afterLoop :: "bool \<Rightarrow> MockRuntime \<Rightarrow> bool \<times> MockRuntime" where
  "afterLoop stepEvent r =
     (if stepEvent then (True, sendEvent (TsStopOnStep (ts_currentLine r) (ts_currentColumn r)) r)
      else (False, r))"

function ts_findNextFrom :: "bool \<Rightarrow> bool \<Rightarrow> int \<Rightarrow> MockRuntime \<Rightarrow> bool \<times> MockRuntime" where
  "ts_findNextFrom reverse stepEvent ln r =
     (if (if reverse then 0 \<le> ln else ln < int (length (ts_sourceLines r))) then
        (case (case ts_breakPoints r (ts_sourceFile r) of
                 None \<Rightarrow> None
               | Some blist \<Rightarrow> find (\<lambda>bp. Line bp = ln) blist) of
           Some bp \<Rightarrow>
             (let r1 = set_currentLine ln r;
                  r2 = (if \<not> Verified bp then
                          sendEvent (TsBreakpointValidated (ID bp) True (Line bp))
                            (r1\<lparr> ts_breakPoints := (ts_breakPoints r1)(ts_sourceFile r1 \<mapsto>
                                   markVerified ln (the (ts_breakPoints r1 (ts_sourceFile r1)))) \<rparr>)
                        else r1)
              in (True, sendEvent (TsStopOnBreakpoint (ts_currentLine r2) (ts_currentColumn r2)) r2))
         | None \<Rightarrow>
             if (case (if reverse then at (ts_starts r) ln
                       else map_option (\<lambda>v. v - 1) (at (ts_ends r) ln)) of
                   Some addr \<Rightarrow> addr \<in> ts_instructionBreakpoints r
                 | None \<Rightarrow> False)
             then
               (let r1 = set_currentLine ln r
                in (True, sendEvent (TsStopOnInstructionBreakpoint (ts_currentLine r1) (ts_currentColumn r1)) r1))
             else if ts_getLine r ln \<noteq> [] then afterLoop stepEvent (set_currentLine ln r)
             else ts_findNextFrom reverse stepEvent (if reverse then ln - 1 else ln + 1) r)
      else afterLoop stepEvent r)"
  by pat_completeness auto
termination
  by (relation "measure (\<lambda>(reverse, stepEvent, ln, r).
        if reverse then nat (ln + 1) else nat (int (length (ts_sourceLines r)) - ln))") auto

declare ts_findNextFrom.simps [simp del]

definition ts_findNextStatement :: "bool \<Rightarrow> bool \<Rightarrow> MockRuntime \<Rightarrow> bool \<times> MockRuntime" where
  "ts_findNextStatement reverse stepEvent r = ts_findNextFrom reverse stepEvent (ts_currentLine r) r"

text \<open>\<^verbatim>\<open>continue\<close>: \<^verbatim>\<open>while (!executeLine(..)) { if (update) break; if (find) break; }\<close>.\<close>

partial_function (option) ts_continue :: "bool \<Rightarrow> MockRuntime \<Rightarrow> MockRuntime option" where
  "ts_continue reverse r =
     (case ts_executeLine (ts_currentLine r) reverse r of
        (stop, r1) \<Rightarrow>
          if stop then Some r1
          else
            (case ts_updateCurrentLine reverse r1 of
               (fin, r2) \<Rightarrow>
                 if fin then Some r2
                 else
                   (case ts_findNextStatement reverse False r2 of
                      (stop2, r3) \<Rightarrow> if stop2 then Some r3 else ts_continue reverse r3)))"

declare ts_continue.simps [code]

text \<open>\<^verbatim>\<open>step(instruction, reverse)\<close>; the command \<^verbatim>\<open>next\<close> calls it with \<^verbatim>\<open>instruction = false\<close>.\<close>

definition ts_step :: "bool \<Rightarrow> bool \<Rightarrow> MockRuntime \<Rightarrow> MockRuntime" where
  "ts_step instr reverse r =
     (if instr then
        (let r1 = r\<lparr> ts_instruction := ts_instruction r + (if reverse then - 1 else 1) \<rparr>
         in sendEvent (TsStopOnStep (ts_currentLine r1) (ts_currentColumn r1)) r1)
      else
        (case ts_executeLine (ts_currentLine r) reverse r of
           (stop, r1) \<Rightarrow>
             if stop then r1
             else
               (case ts_updateCurrentLine reverse r1 of
                  (fin, r2) \<Rightarrow>
                    if fin then r2 else snd (ts_findNextStatement reverse True r2))))"

definition ts_pause :: "MockRuntime \<Rightarrow> MockRuntime" where
  "ts_pause r = sendEvent (TsStopOnPause (ts_currentLine r) (ts_currentColumn r)) r"

text \<open>
  \<^verbatim>\<open>stepIn\<close>: reading \<^verbatim>\<open>.length\<close> of \<^verbatim>\<open>this.sourceLines[this.currentLine]\<close> throws
  a \<^verbatim>\<open>TypeError\<close> when the current line is no line of the source.
\<close>

definition ts_stepIn :: "jsnumber option \<Rightarrow> MockRuntime \<Rightarrow> js_error + MockRuntime" where
  "ts_stepIn targetId r =
     (case targetId of
        Some t \<Rightarrow>
          (let r1 = r\<lparr> ts_currentColumn := Some t \<rparr>
           in Inr (sendEvent (TsStopOnStep (ts_currentLine r1) (ts_currentColumn r1)) r1))
      | None \<Rightarrow>
          (case (case ts_currentColumn r of
                   Some c \<Rightarrow>
                     (case at (ts_sourceLines r) (ts_currentLine r) of
                        None \<Rightarrow> Inl TypeError
                      | Some l \<Rightarrow>
                          if jsLessEq c (int (length l))
                          then Inr (r\<lparr> ts_currentColumn := Some (jsPlus c 1) \<rparr>)
                          else Inr r)
                 | None \<Rightarrow> Inr (r\<lparr> ts_currentColumn := Some (Num 1) \<rparr>)) of
             Inl err \<Rightarrow> Inl err
           | Inr r1 \<Rightarrow> Inr (sendEvent (TsStopOnStep (ts_currentLine r1) (ts_currentColumn r1)) r1)))"

definition ts_stepOut :: "MockRuntime \<Rightarrow> MockRuntime" where
  "ts_stepOut r =
     (let r1 =
            (case ts_currentColumn r of
               Some c \<Rightarrow> if jsIsZero (jsPlus c (- 1)) then r\<lparr> ts_currentColumn := None \<rparr>
                         else r\<lparr> ts_currentColumn := Some (jsPlus c (- 1)) \<rparr>
             | None \<Rightarrow> r)
      in sendEvent (TsStopOnStep (ts_currentLine r1) (ts_currentColumn r1)) r1)"

definition ts_setVariable :: "string \<Rightarrow> tsval \<Rightarrow> MockRuntime \<Rightarrow> MockRuntime" where
  "ts_setVariable name v r = r\<lparr> ts_variables := (ts_variables r)(name \<mapsto> v) \<rparr>"

definition ts_setDataBreakpoint :: "string \<Rightarrow> string \<Rightarrow> MockRuntime \<Rightarrow> bool \<times> MockRuntime" where
  "ts_setDataBreakpoint address accessType r =
     (let x = (if accessType = ''readWrite'' then ''read write'' else accessType) in
      case ts_breakAddresses r address of
        None \<Rightarrow> (True, r\<lparr> ts_breakAddresses := (ts_breakAddresses r)(address \<mapsto> x) \<rparr>)
      | Some t \<Rightarrow>
          if t = [] then (True, r\<lparr> ts_breakAddresses := (ts_breakAddresses r)(address \<mapsto> x) \<rparr>)
          else if t \<noteq> x
            then (True, r\<lparr> ts_breakAddresses := (ts_breakAddresses r)(address \<mapsto> ''read write'') \<rparr>)
          else (True, r))"

definition ts_setExceptionsFilters :: "string option \<Rightarrow> bool \<Rightarrow> MockRuntime \<Rightarrow> MockRuntime" where
  "ts_setExceptionsFilters named others r = r\<lparr> ts_namedException := named, ts_otherExceptions := others \<rparr>"

definition ts_setInstructionBreakpoint :: "int \<Rightarrow> MockRuntime \<Rightarrow> bool \<times> MockRuntime" where
  "ts_setInstructionBreakpoint address r =
     (True, r\<lparr> ts_instructionBreakpoints := insert address (ts_instructionBreakpoints r) \<rparr>)"

section \<open>The C\# engine: breakpoint verification, line lookup, pause and column steps\<close>

text \<open>
  The parts of \<^verbatim>\<open>RuntimeEngine\<close> that differ from the Go engine in what they do:
  \<^verbatim>\<open>VerifyLine\<close> and \<^verbatim>\<open>GetLine\<close> clamp the line index with \<^verbatim>\<open>Math.Clamp\<close>, which
  throws an \<^verbatim>\<open>ArgumentException\<close> when its lower bound exceeds its upper bound, as it
  does on a document of no lines. The breakpoint dictionary compares its keys ignoring
  case; the model keys it by the upper-cased path. \<^verbatim>\<open>Path.GetFullPath\<close> is the
  parameter \<open>absf\<close>. A debugger is taken to be attached. The C\# \<^verbatim>\<open>int\<close> has 32 bits:
  the column arithmetic wraps accordingly; the breakpoint id counter is modelled
  unbounded, which is exact for the first \<open>2\<^sup>3\<^sup>1 - 2\<close> breakpoints set in one process.
\<close>

datatype cs_exception = ArgumentException | IndexOutOfRangeException

datatype cs_event =
    CsOnBreakpointValidated int int bool
  | CsOnOutput string string string int int
  | CsOnStopOnPause int "int option"
  | CsOnStopOnStep int "int option"

record RuntimeEngine =
  cs_debugger :: "cs_event list"
  cs_sourceFile :: string
  cs_sourceLines :: "string list"
  cs_currentLine :: int
  cs_currentColumn :: "int option"
  cs_bps :: "string \<rightharpoonup> Breakpoint list"
  cs_nextBpId :: int
  cs_paused :: bool

definition cs_new :: RuntimeEngine where
  "cs_new = \<lparr> cs_debugger = [], cs_sourceFile = [], cs_sourceLines = [], cs_currentLine = 0,
     cs_currentColumn = None, cs_bps = Map.empty, cs_nextBpId = 1, cs_paused = False \<rparr>"

definition cs_emit :: "cs_event \<Rightarrow> RuntimeEngine \<Rightarrow> RuntimeEngine" where
  "cs_emit ev e = e\<lparr> cs_debugger := cs_debugger e @ [ev] \<rparr>"

definition Clamp :: "int \<Rightarrow> int \<Rightarrow> int \<Rightarrow> cs_exception + int" where
  "Clamp v lo hi = (if hi < lo then Inl ArgumentException else Inr (if v < lo then lo else if hi < v then hi else v))"

definition IsNullOrWhiteSpace :: "string \<Rightarrow> bool" where
  "IsNullOrWhiteSpace s = list_all isSpace s"


definition GetLine :: "RuntimeEngine \<Rightarrow> int \<Rightarrow> cs_exception + string" where
  "GetLine e line =
     (case Clamp line 0 (int (length (cs_sourceLines e)) - 1) of
        Inl x \<Rightarrow> Inl x
      | Inr idx \<Rightarrow> Inr (cs_sourceLines e ! nat idx))"




definition cs_Pause :: "RuntimeEngine \<Rightarrow> cs_exception + RuntimeEngine" where
  "cs_Pause e =
     (if cs_paused e then Inr e
      else
        (let e1 = e\<lparr> cs_paused := True \<rparr> in
         case GetLine e1 (cs_currentLine e1) of
           Inl x \<Rightarrow> Inl x
         | Inr l \<Rightarrow>
             (let e2 = cs_emit (CsOnOutput ''stdout'' (TrimSpace l) (cs_sourceFile e1) (cs_currentLine e1) 0) e1
              in Inr (cs_emit (CsOnStopOnPause (cs_currentLine e2) (cs_currentColumn e2)) e2))))"

definition wrap32 :: "int \<Rightarrow> int" where
  "wrap32 x = (x + 2 ^ 31) mod 2 ^ 32 - 2 ^ 31"

definition cs_StepIn :: "int option \<Rightarrow> RuntimeEngine \<Rightarrow> cs_exception + RuntimeEngine" where
  "cs_StepIn targetId e =
     (case (case targetId of
              Some t \<Rightarrow> Inr (e\<lparr> cs_currentColumn := Some t \<rparr>)
            | None \<Rightarrow>
                (case cs_currentColumn e of
                   Some c \<Rightarrow>
                     (if 0 \<le> cs_currentLine e \<and> cs_currentLine e < int (length (cs_sourceLines e))
                      then Inr (e\<lparr> cs_currentColumn :=
                                   Some (min (int (length (cs_sourceLines e ! nat (cs_currentLine e)))) (wrap32 (c + 1))) \<rparr>)
                      else Inl IndexOutOfRangeException)
                 | None \<Rightarrow> Inr (e\<lparr> cs_currentColumn := Some 1 \<rparr>))) of
        Inl x \<Rightarrow> Inl x
      | Inr e1 \<Rightarrow> Inr (cs_emit (CsOnStopOnStep (cs_currentLine e1) None) e1))"

section \<open>Auxiliary notions for the proofs\<close>

text \<open>
  The invariant of the loading loop after \<open>n\<close> lines, where \<open>wc L\<close> is the number of
  words of line \<open>L\<close>: both arrays have \<open>n\<close> entries, a line's range is as long as its
  word count, each line starts where the one before ends, and the last end is the length
  of the instruction stream.
\<close>

definition rangesFor :: "(nat \<Rightarrow> nat) \<Rightarrow> nat \<Rightarrow> Word list \<times> int list \<times> int list \<Rightarrow> bool" where
  "rangesFor wc n acc =
     (case acc of (ins, st, en) \<Rightarrow>
        length st = n \<and> length en = n \<and>
        (\<forall>L < n. en ! L = st ! L + int (wc L)) \<and>
        (\<forall>L. Suc L < n \<longrightarrow> st ! Suc L = en ! L) \<and>
        (0 < n \<longrightarrow> en ! (n - 1) = int (length ins)))"

text \<open>
  The stop events among the calls on the sink: every \<^verbatim>\<open>OnStopOn...\<close> call. Outputs,
  breakpoint notifications and \<^verbatim>\<open>OnEnd\<close> are not stops.
\<close>

fun isStop :: "event \<Rightarrow> bool" where
  "isStop (OnBreakpointValidated i v) = False"
| "isStop (OnOutput c t f l k) = False"
| "isStop OnEnd = False"
| "isStop ev = True"

fun isOutput :: "event \<Rightarrow> bool" where
  "isOutput (OnOutput c t f l k) = True"
| "isOutput ev = False"

text \<open>
  What executing a line leaves alone: every field of the engine except the sink, the
  instruction pointer, the names seen and the local values.
\<close>

definition lineFrame :: "Engine \<Rightarrow> Engine \<Rightarrow> bool" where
  "lineFrame e e' =
     (sourceFile e' = sourceFile e \<and> sourceLines e' = sourceLines e \<and>
      currentLine e' = currentLine e \<and> currentCol e' = currentCol e \<and>
      instructions e' = instructions e \<and> starts e' = starts e \<and> ends e' = ends e \<and>
      nextBpID e' = nextBpID e \<and> bps e' = bps e \<and>
      namedException e' = namedException e \<and> otherExceptions e' = otherExceptions e \<and>
      dataBps e' = dataBps e \<and> instrBps e' = instrBps e \<and> paused e' = paused e)"

text \<open>The same for the TypeScript runtime: all but the events, the pointer and the variables.\<close>

definition ts_lineFrame :: "MockRuntime \<Rightarrow> MockRuntime \<Rightarrow> bool" where
  "ts_lineFrame r r' =
     (ts_sourceFile r' = ts_sourceFile r \<and> ts_sourceLines r' = ts_sourceLines r \<and>
      ts_instructions r' = ts_instructions r \<and> ts_starts r' = ts_starts r \<and> ts_ends r' = ts_ends r \<and>
      ts_currentLine r' = ts_currentLine r \<and> ts_currentColumn r' = ts_currentColumn r \<and>
      ts_breakPoints r' = ts_breakPoints r \<and>
      ts_instructionBreakpoints r' = ts_instructionBreakpoints r \<and>
      ts_breakpointId r' = ts_breakpointId r \<and> ts_breakAddresses r' = ts_breakAddresses r \<and>
      ts_namedException r' = ts_namedException r \<and> ts_otherExceptions r' = ts_otherExceptions r)"

text \<open>
  A list paired with consecutive numbers from \<open>n\<close> on: the ids that a counter standing
  at \<open>n\<close> and incremented once per element hands out.
\<close>

fun numbered :: "int \<Rightarrow> 'a list \<Rightarrow> (int \<times> 'a) list" where
  "numbered n [] = []"
| "numbered n (x # xs) = (n, x) # numbered (n + 1) xs"

text \<open>What \<^verbatim>\<open>VerifyLine\<close> of the C\# engine returns, in closed form.\<close>

definition cs_verified :: "RuntimeEngine \<Rightarrow> int \<Rightarrow> bool" where
  "cs_verified c l = (cs_sourceLines c \<noteq> [] \<and>
          \<not> IsNullOrWhiteSpace (cs_sourceLines c ! nat (max 0 (min l (int (length (cs_sourceLines c)) - 1)))))"

text \<open>
  A loaded source with the cursor on one of its lines: one range per line, and the
  current line within the source.
\<close>

definition onLine :: "Engine \<Rightarrow> bool" where
  "onLine e =
     (length (starts e) = length (sourceLines e) \<and> length (ends e) = length (sourceLines e) \<and>
      0 \<le> currentLine e \<and> currentLine e < int (length (sourceLines e)))"

text \<open>The stop events of the TypeScript runtime.\<close>

fun ts_isStop :: "ts_event \<Rightarrow> bool" where
  "ts_isStop (TsBreakpointValidated i v l) = False"
| "ts_isStop (TsOutput c t f l k) = False"
| "ts_isStop TsEnd = False"
| "ts_isStop ev = True"

section \<open>Unfolding rules for running the engines on concrete inputs\<close>

lemmas text_eval = Let_def isLetter_def isDigit_def isAlnum_def isWordChar_def isSpace_def TrimSpace_def
  upToLast_def sameLine_def numberTok_def lower_def kwPrefix_def valueTok_def rwMatchAt_def
  logKw_def logMatchAt_def excToken_def getWords_def dropCR_def

lemmas go_eval = New_def emit_def index_def MaxScanTokenSize_def splitLines_def loadLine_def
  LoadSource_def getLine_def trimQuotes_def parseToken_def exceptionCheck_def executeLine_def
  updateCurrentLine_def findNextFrom.simps findNextStatement_def normalize_def ContinueLoop.simps Continue_def
  Next_def StepIn_def StepOut_def Pause_def verifyLine_def SetBreakpoints_def SetVariable_def
  SetExceptionsFilters_def SetDataBreakpoint_def SetInstructionBreakpoint_def

lemmas ts_eval = ts_new_def sendEvent_def at_def set_currentLine_def ts_getLine_def ts_loadLine_def
  initializeContents_def ts_parse_def ts_exceptionCheck_def ts_executeLine_def
  ts_updateCurrentLine_def afterLoop_def ts_findNextFrom.simps ts_findNextStatement_def ts_continue.simps ts_step_def
  ts_pause_def ts_stepIn_def ts_stepOut_def ts_setVariable_def ts_setDataBreakpoint_def
  ts_setExceptionsFilters_def ts_setInstructionBreakpoint_def

section \<open>The per-line ranges built when a source is loaded\<close>

lemma wordScan_no_letters:
  "\<forall>c \<in> set s. \<not> isLetter c \<Longrightarrow> wordScan l i [] st s = []"
  by (induction s arbitrary: i st) auto

lemma TrimSpace_empty_all_space:
  assumes "TrimSpace s = []"
  shows "\<forall>c \<in> set s. isSpace c"
proof -
  from assms have "\<forall>c \<in> set (dropWhile isSpace s). isSpace c"
    by (auto simp: TrimSpace_def dropWhile_eq_Nil_conv)
  moreover have "\<forall>c \<in> set (takeWhile isSpace s). isSpace c"
    by (auto dest: set_takeWhileD)
  moreover have "set s = set (takeWhile isSpace s) \<union> set (dropWhile isSpace s)"
    by (metis set_append takeWhile_dropWhile_id)
  ultimately show ?thesis by blast
qed

lemma isSpace_not_letter: "isSpace c \<Longrightarrow> \<not> isLetter c"
  by (auto simp: isSpace_def isLetter_def)

lemma blank_no_words: "TrimSpace s = [] \<Longrightarrow> getWords l s = []"
  unfolding getWords_def
  by (rule wordScan_no_letters) (blast dest: TrimSpace_empty_all_space isSpace_not_letter)

lemma loadLoop_snoc:
  "loadLoop i (ls @ [l]) acc = loadLine (i + int (length ls)) l (loadLoop i ls acc)"
  by (induction ls arbitrary: i acc) (simp_all add: algebra_simps)

lemma loadLoop_ranges:
  "rangesFor (\<lambda>L. length (getWords (i + int L) (ls ! L))) (length ls) (loadLoop i ls ([], [], []))"
proof (induction ls rule: rev_induct)
  case Nil
  show ?case by (simp add: rangesFor_def)
next
  case (snoc l ls)
  obtain ins st en where r: "loadLoop i ls ([], [], []) = (ins, st, en)"
    by (cases "loadLoop i ls ([], [], [])") auto
  from snoc[unfolded r rangesFor_def prod.case] have len: "length st = length ls" "length en = length ls"
    and w: "\<forall>L < length ls. en ! L = st ! L + int (length (getWords (i + int L) (ls ! L)))"
    and nx: "\<forall>L. Suc L < length ls \<longrightarrow> st ! Suc L = en ! L"
    and la: "0 < length ls \<longrightarrow> en ! (length ls - 1) = int (length ins)"
    by blast+
  have nx': "st ! Suc L = en ! L" if "Suc L < length ls" for L using nx that by blast
  have la': "en ! (length ls - 1) = int (length ins)" if "0 < length ls" using la that by blast
  have w': "en ! L = st ! L + int (length (getWords (i + int L) (ls ! L)))" if "L < length ls" for L
    using w that by blast
  have step: "loadLoop i (ls @ [l]) ([], [], []) =
      (ins @ getWords (i + int (length ls)) l, st @ [int (length ins)],
       en @ [int (length ins) + int (length (getWords (i + int (length ls)) l))])"
    by (simp add: loadLoop_snoc r loadLine_def Let_def)
  have a: "(en @ [x]) ! L = (st @ [y]) ! L + int (length (getWords (i + int L) ((ls @ [l]) ! L)))"
    if "L < Suc (length ls)" "x = y + int (length (getWords (i + int (length ls)) l))" for L x y
  proof (cases "L < length ls")
    case True
    then show ?thesis using len w'[OF True] by (simp add: nth_append)
  next
    case False
    with that have "L = length ls" by simp
    then show ?thesis using len that by (simp add: nth_append)
  qed
  have b: "(st @ [int (length ins)]) ! Suc L = (en @ [x]) ! L" if "Suc L < Suc (length ls)" for L x
  proof (cases "Suc L < length ls")
    case True
    then show ?thesis using len nx'[OF True] by (simp add: nth_append)
  next
    case False
    with that have eq: "Suc L = length ls" by simp
    then have "en ! L = int (length ins)" using la' by (metis diff_Suc_1 zero_less_Suc)
    then show ?thesis using len eq by (simp add: nth_append)
  qed
  show ?case
    unfolding step rangesFor_def
    using len a b by (simp add: nth_append)
qed

lemma ts_loadLoop_eq: "ts_loadLoop l ls acc = loadLoop l (map TrimSpace ls) acc"
  by (induction ls arbitrary: l acc) (simp_all add: ts_loadLine_def loadLine_def Let_def)

lemma ranges_ordered:
  assumes "loadLoop 0 ls ([], [], []) = (ins, st, en)"
  shows "length st = length ls \<and> length en = length ls \<and>
         (\<forall>L < length ls.
            st ! L \<le> en ! L \<and>
            (Suc L < length ls \<longrightarrow> en ! L \<le> st ! Suc L) \<and>
            (getWords (int L) (ls ! L) = [] \<longrightarrow> st ! L = en ! L))"
proof -
  from loadLoop_ranges[of 0 ls, unfolded assms rangesFor_def prod.case]
  have len: "length st = length ls" "length en = length ls"
    and w: "\<forall>L < length ls. en ! L = st ! L + int (length (getWords (0 + int L) (ls ! L)))"
    and nx: "\<forall>L. Suc L < length ls \<longrightarrow> st ! Suc L = en ! L"
    by blast+
  show ?thesis using len w nx by auto
qed

text \<open>
  Claim C8. After \<^verbatim>\<open>LoadSource\<close> (Go) and after \<^verbatim>\<open>initializeContents\<close>
  (TypeScript), from any previous state and for every text: \<open>starts\<close> and \<open>ends\<close> have
  one entry per line, \<open>starts[L] \<le> ends[L]\<close> for every line, \<open>ends[L] \<le> starts[L+1]\<close>
  for every line with a successor, and \<open>starts[L] = ends[L]\<close> for every line that has no
  word or is blank.
\<close>

theorem LoadSource_ranges:
  "length (starts (LoadSource absf path contents e)) = length (sourceLines (LoadSource absf path contents e)) \<and>
   length (ends (LoadSource absf path contents e)) = length (sourceLines (LoadSource absf path contents e)) \<and>
   (\<forall>L < length (sourceLines (LoadSource absf path contents e)).
      starts (LoadSource absf path contents e) ! L \<le> ends (LoadSource absf path contents e) ! L \<and>
      (Suc L < length (sourceLines (LoadSource absf path contents e)) \<longrightarrow>
         ends (LoadSource absf path contents e) ! L \<le> starts (LoadSource absf path contents e) ! Suc L) \<and>
      (getWords (int L) (sourceLines (LoadSource absf path contents e) ! L) = [] \<or>
       TrimSpace (sourceLines (LoadSource absf path contents e) ! L) = [] \<longrightarrow>
         starts (LoadSource absf path contents e) ! L = ends (LoadSource absf path contents e) ! L)) \<and>
   length (ts_starts (initializeContents contents r)) = length (ts_sourceLines (initializeContents contents r)) \<and>
   length (ts_ends (initializeContents contents r)) = length (ts_sourceLines (initializeContents contents r)) \<and>
   (\<forall>L < length (ts_sourceLines (initializeContents contents r)).
      ts_starts (initializeContents contents r) ! L \<le> ts_ends (initializeContents contents r) ! L \<and>
      (Suc L < length (ts_sourceLines (initializeContents contents r)) \<longrightarrow>
         ts_ends (initializeContents contents r) ! L \<le> ts_starts (initializeContents contents r) ! Suc L) \<and>
      (getWords (int L) (TrimSpace (ts_sourceLines (initializeContents contents r) ! L)) = [] \<longrightarrow>
         ts_starts (initializeContents contents r) ! L = ts_ends (initializeContents contents r) ! L))"
proof -
  obtain ins st en where g: "loadLoop 0 (splitLines contents) ([], [], []) = (ins, st, en)"
    by (cases "loadLoop 0 (splitLines contents) ([], [], [])") auto
  have gf: "sourceLines (LoadSource absf path contents e) = splitLines contents"
    "starts (LoadSource absf path contents e) = st" "ends (LoadSource absf path contents e) = en"
    by (simp_all add: LoadSource_def Let_def g)
  obtain tins tst ten where t: "loadLoop 0 (map TrimSpace (tsSplit [] contents)) ([], [], []) = (tins, tst, ten)"
    by (cases "loadLoop 0 (map TrimSpace (tsSplit [] contents)) ([], [], [])") auto
  have tf: "ts_sourceLines (initializeContents contents r) = tsSplit [] contents"
    "ts_starts (initializeContents contents r) = tst" "ts_ends (initializeContents contents r) = ten"
    by (simp_all add: initializeContents_def Let_def ts_loadLoop_eq t)
  have go: "length st = length (splitLines contents) \<and> length en = length (splitLines contents) \<and>
     (\<forall>L < length (splitLines contents).
        st ! L \<le> en ! L \<and> (Suc L < length (splitLines contents) \<longrightarrow> en ! L \<le> st ! Suc L) \<and>
        (getWords (int L) (splitLines contents ! L) = [] \<or> TrimSpace (splitLines contents ! L) = [] \<longrightarrow> st ! L = en ! L))"
    using ranges_ordered[OF g] by (auto simp: blank_no_words)
  have ts: "length tst = length (tsSplit [] contents) \<and> length ten = length (tsSplit [] contents) \<and>
     (\<forall>L < length (tsSplit [] contents).
        tst ! L \<le> ten ! L \<and> (Suc L < length (tsSplit [] contents) \<longrightarrow> ten ! L \<le> tst ! Suc L) \<and>
        (getWords (int L) (TrimSpace (tsSplit [] contents ! L)) = [] \<longrightarrow> tst ! L = ten ! L))"
    using ranges_ordered[OF t] by simp
  show ?thesis unfolding gf tf using go ts by blast
qed

text \<open>
  The theorem at the text \<^verbatim>\<open>ab cd\<close> / two blanks / \<^verbatim>\<open>$x=1\<close>: line 1 is blank and
  has a successor; the ranges are \<open>[0,2) [2,2) [2,3)\<close> in both runtimes.
\<close>

theorem LoadSource_ranges_witness:
  "(1::nat) < length (sourceLines (LoadSource (\<lambda>p. p) ''/p.md'' ''ab cd\<newline>  \<newline>$x=1'' New)) \<and>
   Suc 1 < length (sourceLines (LoadSource (\<lambda>p. p) ''/p.md'' ''ab cd\<newline>  \<newline>$x=1'' New)) \<and>
   TrimSpace (sourceLines (LoadSource (\<lambda>p. p) ''/p.md'' ''ab cd\<newline>  \<newline>$x=1'' New) ! 1) = [] \<and>
   starts (LoadSource (\<lambda>p. p) ''/p.md'' ''ab cd\<newline>  \<newline>$x=1'' New) ! 1
     = ends (LoadSource (\<lambda>p. p) ''/p.md'' ''ab cd\<newline>  \<newline>$x=1'' New) ! 1 \<and>
   ends (LoadSource (\<lambda>p. p) ''/p.md'' ''ab cd\<newline>  \<newline>$x=1'' New) ! 1
     \<le> starts (LoadSource (\<lambda>p. p) ''/p.md'' ''ab cd\<newline>  \<newline>$x=1'' New) ! Suc 1 \<and>
   starts (LoadSource (\<lambda>p. p) ''/p.md'' ''ab cd\<newline>  \<newline>$x=1'' New) = [0, 2, 2] \<and>
   ends (LoadSource (\<lambda>p. p) ''/p.md'' ''ab cd\<newline>  \<newline>$x=1'' New) = [2, 2, 3] \<and>
   ts_starts (initializeContents ''ab cd\<newline>  \<newline>$x=1'' ts_new) = [0, 2, 2] \<and>
   ts_ends (initializeContents ''ab cd\<newline>  \<newline>$x=1'' ts_new) = [2, 2, 3]"
  using LoadSource_ranges [of "\<lambda>p. p" "''/p.md''" "''ab cd\<newline>  \<newline>$x=1''" New ts_new]
  by (simp add: LoadSource_def splitLines_def dropCR_def MaxScanTokenSize_def loadLine_def
        getWords_def isLetter_def initializeContents_def ts_loadLine_def TrimSpace_def isSpace_def at_def)

section \<open>The scenario of the specification\<close>

text \<open>
  Claim C3. The program of five lines (empty line, \<^verbatim>\<open>log(hello)\<close>, \<^verbatim>\<open>$x=1\<close>,
  \<^verbatim>\<open>$x\<close>, \<^verbatim>\<open>exception(Err)\<close>) is loaded into a fresh engine: no breakpoint of any
  kind, no exception filter. \<^verbatim>\<open>Continue(false)\<close> from line 0 returns, and what it has
  sent is exactly one output event (category \<^verbatim>\<open>log\<close>, text \<^verbatim>\<open>hello\<close>, line 1) followed
  by one \<^verbatim>\<open>OnEnd\<close>: no stop event. The run ends on line 4 with \<^verbatim>\<open>x\<close> the only name
  seen. The same holds of \<^verbatim>\<open>continue(false)\<close> in the TypeScript runtime.
\<close>

theorem Continue_scenario:
  "(case Continue False (LoadSource (\<lambda>p. p) ''/prog.md''
            ''\<newline>log(hello)\<newline>$x=1\<newline>$x\<newline>exception(Err)'' New) of
      Some (Inr e) \<Rightarrow>
        dbg e = [OnOutput ''log'' ''hello'' ''/prog.md'' 1 0, OnEnd] \<and>
        currentLine e = 4 \<and> variables e = {''x''}
    | _ \<Rightarrow> False) \<and>
   (case ts_continue False (initializeContents
            ''\<newline>log(hello)\<newline>$x=1\<newline>$x\<newline>exception(Err)''
            (ts_new\<lparr> ts_sourceFile := ''/prog.md'' \<rparr>)) of
      Some r \<Rightarrow>
        ts_events r = [TsOutput ''log'' ''hello'' ''/prog.md'' 1 0, TsEnd] \<and>
        ts_currentLine r = 4 \<and> dom (ts_variables r) = {''x''}
    | None \<Rightarrow> False)"
  by (simp add: text_eval go_eval ts_eval)

section \<open>Executing a line: instruction breakpoints come first\<close>

lemma scanForward_hit:
  "\<exists>a. ip < a \<and> a \<le> end \<and> a \<in> B \<Longrightarrow>
   \<exists>a. ip < a \<and> a \<le> end \<and> a \<in> B \<and> (\<forall>b. ip < b \<and> b < a \<longrightarrow> b \<notin> B) \<and>
       scanForward B end ip = (True, a)"
proof (induction B "end" ip rule: scanForward.induct)
  case (1 B "end" ip)
  from "1.prems" obtain a where a: "ip < a" "a \<le> end" "a \<in> B" by blast
  then have lt: "ip < end" by simp
  show ?case
  proof (cases "ip + 1 \<in> B")
    case True
    then have "scanForward B end ip = (True, ip + 1)" using lt by simp
    moreover have "\<forall>b. ip < b \<and> b < ip + 1 \<longrightarrow> b \<notin> B" by auto
    ultimately show ?thesis using True lt by (intro exI[of _ "ip + 1"]) auto
  next
    case False
    then have "a \<noteq> ip + 1" using a by auto
    then have "\<exists>a. ip + 1 < a \<and> a \<le> end \<and> a \<in> B" using a by (intro exI[of _ a]) auto
    from "1.IH"[OF lt False this] obtain a' where
      a': "ip + 1 < a'" "a' \<le> end" "a' \<in> B" "\<forall>b. ip + 1 < b \<and> b < a' \<longrightarrow> b \<notin> B"
      "scanForward B end (ip + 1) = (True, a')" by blast
    have "scanForward B end ip = (True, a')" using lt False a'(5) by simp
    moreover have "\<forall>b. ip < b \<and> b < a' \<longrightarrow> b \<notin> B"
    proof (intro allI impI)
      fix b assume b: "ip < b \<and> b < a'"
      show "b \<notin> B"
      proof (cases "b = ip + 1")
        case True then show ?thesis using False by simp
      next
        case False then show ?thesis using a'(4) b by auto
      qed
    qed
    ultimately show ?thesis using a' by (intro exI[of _ a']) auto
  qed
qed

lemma scanForward_miss:
  "\<not> (\<exists>a. ip < a \<and> a \<le> end \<and> a \<in> B) \<Longrightarrow> scanForward B end ip = (False, max ip end)"
proof (induction B "end" ip rule: scanForward.induct)
  case (1 B "end" ip)
  show ?case
  proof (cases "ip < end")
    case True
    then have nin: "ip + 1 \<notin> B" using "1.prems" by auto
    have "\<not> (\<exists>a. ip + 1 < a \<and> a \<le> end \<and> a \<in> B)" using "1.prems" by auto
    from "1.IH"[OF True nin this] show ?thesis using True nin by (simp add: max_def)
  next
    case False
    then show ?thesis by (simp add: max_def)
  qed
qed

lemma scanReverse_hit:
  "\<exists>a. start - 1 \<le> a \<and> a < ip \<and> a \<in> B \<Longrightarrow>
   \<exists>a. start - 1 \<le> a \<and> a < ip \<and> a \<in> B \<and> (\<forall>b. a < b \<and> b < ip \<longrightarrow> b \<notin> B) \<and>
       scanReverse B start ip = (True, a)"
proof (induction B start ip rule: scanReverse.induct)
  case (1 B start ip)
  from "1.prems" obtain a where a: "start - 1 \<le> a" "a < ip" "a \<in> B" by blast
  then have le: "start \<le> ip" by simp
  show ?case
  proof (cases "ip - 1 \<in> B")
    case True
    then have "scanReverse B start ip = (True, ip - 1)" using le by simp
    moreover have "\<forall>b. ip - 1 < b \<and> b < ip \<longrightarrow> b \<notin> B" by auto
    ultimately show ?thesis using True le by (intro exI[of _ "ip - 1"]) auto
  next
    case False
    then have "a \<noteq> ip - 1" using a by auto
    then have "\<exists>a. start - 1 \<le> a \<and> a < ip - 1 \<and> a \<in> B" using a by (intro exI[of _ a]) auto
    from "1.IH"[OF le False this] obtain a' where
      a': "start - 1 \<le> a'" "a' < ip - 1" "a' \<in> B" "\<forall>b. a' < b \<and> b < ip - 1 \<longrightarrow> b \<notin> B"
      "scanReverse B start (ip - 1) = (True, a')" by blast
    have "scanReverse B start ip = (True, a')" using le False a'(5) by simp
    moreover have "\<forall>b. a' < b \<and> b < ip \<longrightarrow> b \<notin> B"
    proof (intro allI impI)
      fix b assume b: "a' < b \<and> b < ip"
      show "b \<notin> B"
      proof (cases "b = ip - 1")
        case True then show ?thesis using False by simp
      next
        case False then show ?thesis using a'(4) b by auto
      qed
    qed
    ultimately show ?thesis using a' by (intro exI[of _ a']) auto
  qed
qed

lemma scanReverse_miss:
  "\<not> (\<exists>a. start - 1 \<le> a \<and> a < ip \<and> a \<in> B) \<Longrightarrow> scanReverse B start ip = (False, min ip (start - 1))"
proof (induction B start ip rule: scanReverse.induct)
  case (1 B start ip)
  show ?case
  proof (cases "start \<le> ip")
    case True
    then have nin: "ip - 1 \<notin> B" using "1.prems" by auto
    have "\<not> (\<exists>a. start - 1 \<le> a \<and> a < ip - 1 \<and> a \<in> B)" using "1.prems" by auto
    from "1.IH"[OF True nin this] show ?thesis using True nin by (simp add: min_def)
  next
    case False
    then show ?thesis by (simp add: min_def)
  qed
qed

lemma lineFrame_refl: "lineFrame e e"
  by (simp add: lineFrame_def)

lemma lineFrame_trans: "lineFrame a b \<Longrightarrow> lineFrame b c \<Longrightarrow> lineFrame a c"
  by (simp add: lineFrame_def)

lemma rwVarLoop_effect:
  "rwVarLoop ln ms e = (stop, e') \<Longrightarrow>
   lineFrame e e' \<and> instruction e' = instruction e \<and>
   dbg e' = dbg e @ (if stop then [OnStopOnDataBreakpoint ln (currentCol e)] else [])"
proof (induction ms arbitrary: e)
  case Nil
  then show ?case by (auto simp: lineFrame_def)
next
  case (Cons m ms)
  obtain name tok where m: "m = (name, tok)" by (cases m)
  define e1 where "e1 = (case tok of
       Some t \<Rightarrow> e\<lparr> variables := insert name (variables e), locals := (locals e)(name \<mapsto> parseToken t) \<rparr>
     | None \<Rightarrow> e)"
  have f1: "lineFrame e e1" "instruction e1 = instruction e" "dbg e1 = dbg e" "currentCol e1 = currentCol e"
    by (auto simp: e1_def lineFrame_def split: option.splits)
  from Cons.prems have "rwVarLoop ln ms e1 = (stop, e') \<or>
      (stop \<and> e' = emit (OnStopOnDataBreakpoint ln (currentCol e1)) e1)"
    unfolding m by (auto simp: Let_def e1_def split: option.splits if_splits)
  then show ?case
  proof
    assume "rwVarLoop ln ms e1 = (stop, e')"
    from Cons.IH[OF this] show ?thesis using f1 by (auto intro: lineFrame_trans)
  next
    assume "stop \<and> e' = emit (OnStopOnDataBreakpoint ln (currentCol e1)) e1"
    then show ?thesis using f1 by (auto simp: emit_def lineFrame_def)
  qed
qed

lemma outputLoop_effect:
  "outputLoop ln ms e =
     e\<lparr> dbg := dbg e @ map (\<lambda>(cat, payload, i). OnOutput cat payload (sourceFile e) ln (int i)) ms \<rparr>"
  by (induction ms arbitrary: e) (auto simp: emit_def)

lemma exceptionCheck_effect:
  "exceptionCheck ln text e = (stop, e') \<Longrightarrow>
   lineFrame e e' \<and> instruction e' = instruction e \<and> variables e' = variables e \<and> locals e' = locals e \<and>
   (\<exists>x. dbg e' = dbg e @ (if stop then [OnStopOnException ln x (currentCol e)] else []))"
  by (auto simp: exceptionCheck_def Let_def emit_def lineFrame_def split: option.splits if_splits)

lemma getLine_instruction [simp]: "getLine (e\<lparr> instruction := ip \<rparr>) ln = getLine e ln"
  by (simp add: getLine_def)

lemma executeLine_miss:
  assumes "index (starts e) ln = Inr start" "index (ends e) ln = Inr end"
    and "(if reverse then scanReverse (instrBps e) start (instruction e)
          else scanForward (instrBps e) end (instruction e)) = (False, ip)"
  shows "executeLine ln reverse e =
     Inr (case rwVarLoop ln (rwFindAll False 0 (TrimSpace (getLine e ln))) (e\<lparr> instruction := ip \<rparr>) of
            (stop, e2) \<Rightarrow>
              if stop then (True, e2)
              else exceptionCheck ln (TrimSpace (getLine e ln))
                     (outputLoop ln (logFindAll 0 0 (TrimSpace (getLine e ln))) e2))"
  using assms by (simp add: executeLine_def Let_def split: prod.splits)

lemma executeLine_effect:
  assumes "executeLine ln reverse e = Inr (stop, e')"
  shows "lineFrame e e' \<and>
     (\<exists>outs ev. dbg e' = dbg e @ outs @ (if stop then [ev] else []) \<and>
        (\<forall>u \<in> set outs. isOutput u) \<and> isStop ev)"
proof -
  from assms obtain start "end" where idx: "index (starts e) ln = Inr start" "index (ends e) ln = Inr end"
    by (auto simp: executeLine_def split: sum.splits)
  obtain hit ip where sc: "(if reverse then scanReverse (instrBps e) start (instruction e)
          else scanForward (instrBps e) end (instruction e)) = (hit, ip)"
    by (cases "if reverse then scanReverse (instrBps e) start (instruction e)
          else scanForward (instrBps e) end (instruction e)") auto
  show ?thesis
  proof (cases hit)
    case True
    with assms idx sc have "stop" "e' = emit (OnStopOnInstructionBreakpoint ln (currentCol e)) (e\<lparr> instruction := ip \<rparr>)"
      by (auto simp: executeLine_def Let_def)
    then show ?thesis
      by (auto simp: emit_def lineFrame_def intro!: exI[of _ "[]"] exI[of _ "OnStopOnInstructionBreakpoint ln (currentCol e)"])
  next
    case False
    let ?text = "TrimSpace (getLine e ln)"
    obtain s2 e2 where rw: "rwVarLoop ln (rwFindAll False 0 ?text) (e\<lparr> instruction := ip \<rparr>) = (s2, e2)"
      by (cases "rwVarLoop ln (rwFindAll False 0 ?text) (e\<lparr> instruction := ip \<rparr>)") auto
    from rwVarLoop_effect[OF rw] have f2: "lineFrame e e2"
      and d2: "dbg e2 = dbg e @ (if s2 then [OnStopOnDataBreakpoint ln (currentCol e)] else [])"
      by (auto simp: lineFrame_def)
    from executeLine_miss[OF idx] sc False assms rw
    have res: "(stop, e') = (if s2 then (True, e2)
        else exceptionCheck ln ?text (outputLoop ln (logFindAll 0 0 ?text) e2))"
      by simp
    show ?thesis
    proof (cases s2)
      case True
      with res d2 f2 show ?thesis
        by (auto intro!: exI[of _ "[]"] exI[of _ "OnStopOnDataBreakpoint ln (currentCol e)"])
    next
      case False
      let ?e3 = "outputLoop ln (logFindAll 0 0 ?text) e2"
      let ?outs = "map (\<lambda>(cat, payload, i). OnOutput cat payload (sourceFile e2) ln (int i)) (logFindAll 0 0 ?text)"
      have d3: "dbg ?e3 = dbg e @ ?outs" and f3: "lineFrame e ?e3"
        using d2 f2 False by (auto simp: outputLoop_effect lineFrame_def)
      from res False have ex: "exceptionCheck ln ?text ?e3 = (stop, e')" by simp
      from exceptionCheck_effect[OF ex] obtain x where
        f4: "lineFrame ?e3 e'" and d4: "dbg e' = dbg ?e3 @ (if stop then [OnStopOnException ln x (currentCol ?e3)] else [])"
        by blast
      have "\<forall>u \<in> set ?outs. isOutput u" by auto
      then show ?thesis using d3 d4 lineFrame_trans[OF f3 f4]
        by (intro conjI exI[of _ ?outs] exI[of _ "OnStopOnException ln x (currentCol ?e3)"]) auto
    qed
  qed
qed

lemma executeLine_miss_effect:
  assumes idx: "index (starts e) ln = Inr start" "index (ends e) ln = Inr end"
    and sc: "(if reverse then scanReverse (instrBps e) start (instruction e)
          else scanForward (instrBps e) end (instruction e)) = (False, ip)"
  shows "\<exists>stop e' outs ev. executeLine ln reverse e = Inr (stop, e') \<and>
      dbg e' = dbg e @ outs @ (if stop then [ev] else []) \<and> (\<forall>u \<in> set outs. isOutput u) \<and>
      (ev = OnStopOnDataBreakpoint ln (currentCol e) \<or> (\<exists>x. ev = OnStopOnException ln x (currentCol e)))"
proof -
  let ?text = "TrimSpace (getLine e ln)"
  obtain s2 e2 where rw: "rwVarLoop ln (rwFindAll False 0 ?text) (e\<lparr> instruction := ip \<rparr>) = (s2, e2)"
    by (cases "rwVarLoop ln (rwFindAll False 0 ?text) (e\<lparr> instruction := ip \<rparr>)") auto
  from rwVarLoop_effect[OF rw] have f2: "lineFrame e e2"
    and d2: "dbg e2 = dbg e @ (if s2 then [OnStopOnDataBreakpoint ln (currentCol e)] else [])"
    by (auto simp: lineFrame_def)
  have res: "executeLine ln reverse e = Inr (if s2 then (True, e2)
      else exceptionCheck ln ?text (outputLoop ln (logFindAll 0 0 ?text) e2))"
    using executeLine_miss[OF idx sc] rw by simp
  show ?thesis
  proof (cases s2)
    case True
    with res d2 show ?thesis
      by (intro exI[of _ True] exI[of _ e2] exI[of _ "[]"] exI[of _ "OnStopOnDataBreakpoint ln (currentCol e)"]) auto
  next
    case False
    let ?e3 = "outputLoop ln (logFindAll 0 0 ?text) e2"
    let ?outs = "map (\<lambda>(cat, payload, i). OnOutput cat payload (sourceFile e2) ln (int i)) (logFindAll 0 0 ?text)"
    have d3: "dbg ?e3 = dbg e @ ?outs" and c3: "currentCol ?e3 = currentCol e"
      using d2 f2 False by (auto simp: outputLoop_effect lineFrame_def)
    obtain stop e' where ex: "exceptionCheck ln ?text ?e3 = (stop, e')"
      by (cases "exceptionCheck ln ?text ?e3") auto
    from exceptionCheck_effect[OF ex] obtain x where
      d4: "dbg e' = dbg ?e3 @ (if stop then [OnStopOnException ln x (currentCol ?e3)] else [])"
      by blast
    have "\<forall>u \<in> set ?outs. isOutput u" by auto
    then show ?thesis using res False ex d3 d4 c3
      by (intro exI[of _ stop] exI[of _ e'] exI[of _ ?outs] exI[of _ "OnStopOnException ln x (currentCol e)"]) auto
  qed
qed

lemma index_in_range: "0 \<le> i \<Longrightarrow> i < int (length xs) \<Longrightarrow> index xs i = Inr (xs ! nat i)"
  by (simp add: index_def)

lemma at_in_range: "0 \<le> i \<Longrightarrow> i < int (length xs) \<Longrightarrow> at xs i = Some (xs ! nat i)"
  by (simp add: at_def)

lemma ts_rwVarLoop_effect:
  "ts_rwVarLoop ms r = (stop, r') \<Longrightarrow>
   ts_lineFrame r r' \<and> ts_instruction r' = ts_instruction r \<and>
   (\<exists>a. ts_events r' = ts_events r @
      (if stop then [TsStopOnDataBreakpoint a (ts_currentLine r) (ts_currentColumn r)] else []))"
proof (induction ms arbitrary: r)
  case Nil
  then show ?case by (auto simp: ts_lineFrame_def)
next
  case (Cons m ms)
  obtain name tok where m: "m = (name, tok)" by (cases m)
  define r1 where "r1 = (case tok of
       Some v \<Rightarrow> r\<lparr> ts_variables := (ts_variables r)(name \<mapsto> ts_parse v) \<rparr>
     | None \<Rightarrow> r)"
  have f1: "ts_lineFrame r r1" "ts_instruction r1 = ts_instruction r" "ts_events r1 = ts_events r"
    by (auto simp: r1_def ts_lineFrame_def split: option.splits)
  from Cons.prems have "ts_rwVarLoop ms r1 = (stop, r') \<or>
      (stop \<and> (\<exists>a. r' = sendEvent (TsStopOnDataBreakpoint a (ts_currentLine r1) (ts_currentColumn r1)) r1))"
    unfolding m by (auto simp: Let_def r1_def split: option.splits if_splits)
  then show ?case
  proof
    assume "ts_rwVarLoop ms r1 = (stop, r')"
    from Cons.IH[OF this] show ?thesis using f1 by (auto simp: ts_lineFrame_def)
  next
    assume "stop \<and> (\<exists>a. r' = sendEvent (TsStopOnDataBreakpoint a (ts_currentLine r1) (ts_currentColumn r1)) r1)"
    then obtain a where st: "stop"
      and r': "r' = sendEvent (TsStopOnDataBreakpoint a (ts_currentLine r1) (ts_currentColumn r1)) r1" by blast
    have "ts_lineFrame r r'" "ts_instruction r' = ts_instruction r"
      using f1 by (simp_all add: r' sendEvent_def ts_lineFrame_def)
    moreover have "ts_events r' = ts_events r @ [TsStopOnDataBreakpoint a (ts_currentLine r) (ts_currentColumn r)]"
      using f1 by (simp add: r' sendEvent_def ts_lineFrame_def)
    ultimately show ?thesis using st by auto
  qed
qed

lemma ts_outputLoop_effect:
  "ts_outputLoop ln ms r =
     r\<lparr> ts_events := ts_events r @ map (\<lambda>(cat, payload, i). TsOutput cat payload (ts_sourceFile r) ln (int i)) ms \<rparr>"
  by (induction ms arbitrary: r) (auto simp: sendEvent_def)

lemma ts_getLine_instruction [simp]: "ts_getLine (r\<lparr> ts_instruction := ip \<rparr>) ln = ts_getLine r ln"
  by (simp add: ts_getLine_def)

lemma ts_exceptionCheck_effect:
  "ts_exceptionCheck text r = (stop, r') \<Longrightarrow>
   \<exists>x. ts_events r' = ts_events r @
         (if stop then [TsStopOnException x (ts_currentLine r) (ts_currentColumn r)] else [])"
  by (auto simp: ts_exceptionCheck_def Let_def sendEvent_def split: option.splits if_splits)

lemma ts_executeLine_miss_events:
  assumes idx: "at (ts_starts r) ln = Some start" "at (ts_ends r) ln = Some end"
    and sc: "(if reverse then scanReverse (ts_instructionBreakpoints r) start (ts_instruction r)
              else scanForward (ts_instructionBreakpoints r) end (ts_instruction r)) = (False, ip)"
  shows "\<exists>stop r' new. ts_executeLine ln reverse r = (stop, r') \<and> ts_events r' = ts_events r @ new \<and>
           (\<forall>l c. TsStopOnInstructionBreakpoint l c \<notin> set new)"
proof -
  let ?line = "ts_getLine r ln"
  obtain s2 r2 where rw: "ts_rwVarLoop (rwFindAll True 0 ?line) (r\<lparr> ts_instruction := ip \<rparr>) = (s2, r2)"
    by (cases "ts_rwVarLoop (rwFindAll True 0 ?line) (r\<lparr> ts_instruction := ip \<rparr>)") auto
  from ts_rwVarLoop_effect[OF rw] obtain a where
    "ts_events r2 = ts_events (r\<lparr> ts_instruction := ip \<rparr>) @
       (if s2 then [TsStopOnDataBreakpoint a (ts_currentLine (r\<lparr> ts_instruction := ip \<rparr>))
                      (ts_currentColumn (r\<lparr> ts_instruction := ip \<rparr>))] else [])"
    by blast
  then have d2: "ts_events r2 = ts_events r @
      (if s2 then [TsStopOnDataBreakpoint a (ts_currentLine r) (ts_currentColumn r)] else [])"
    by simp
  show ?thesis
  proof (cases s2)
    case True
    have "ts_executeLine ln reverse r = (True, r2)"
      using idx sc rw True by (cases reverse) (simp_all add: ts_executeLine_def Let_def)
    then show ?thesis using d2 True by auto
  next
    case False
    let ?outs = "map (\<lambda>(cat, payload, i). TsOutput cat payload (ts_sourceFile r2) ln (int i)) (logFindAll 0 0 ?line)"
    let ?r3 = "ts_outputLoop ln (logFindAll 0 0 ?line) r2"
    obtain stop r' where ex: "ts_exceptionCheck ?line ?r3 = (stop, r')"
      by (cases "ts_exceptionCheck ?line ?r3") auto
    have res: "ts_executeLine ln reverse r = (stop, r')"
      using idx sc rw False ex by (cases reverse) (simp_all add: ts_executeLine_def Let_def)
    have e3: "ts_events ?r3 = ts_events r @ ?outs" using d2 False by (simp add: ts_outputLoop_effect)
    from ts_exceptionCheck_effect[OF ex] obtain x where
      "ts_events r' = ts_events ?r3 @
         (if stop then [TsStopOnException x (ts_currentLine ?r3) (ts_currentColumn ?r3)] else [])" ..
    then have "ts_events r' = ts_events r @ (?outs @
         (if stop then [TsStopOnException x (ts_currentLine ?r3) (ts_currentColumn ?r3)] else []))"
      using e3 by simp
    moreover have "\<forall>l c. TsStopOnInstructionBreakpoint l c \<notin> set (?outs @
         (if stop then [TsStopOnException x (ts_currentLine ?r3) (ts_currentColumn ?r3)] else []))"
      by auto
    ultimately show ?thesis using res by blast
  qed
qed

text \<open>
  Claim C1, as the code has it. \<^verbatim>\<open>executeLine(L, direction)\<close> on a line of the loaded
  source first steps the instruction pointer and tests each address it reaches: going
  forward the addresses \<open>instruction + 1, ..., ends[L]\<close>, in reverse the addresses
  \<open>instruction - 1, ..., starts[L] - 1\<close>. If one of them is a registered instruction
  breakpoint, the call stops at the first one reached with reason
  \<^verbatim>\<open>instructionBreakpoint\<close>, and nothing else has happened: that stop is the only event
  sent, no name is marked seen, no value is stored, whatever data breakpoints and
  exception tokens the line has. If none of them is registered, the call sends no
  \<^verbatim>\<open>instructionBreakpoint\<close> stop. The address the pointer starts from is not tested,
  and \<open>ends[L]\<close>, the first address of the next line, is. The same holds of the
  TypeScript \<^verbatim>\<open>executeLine\<close>.
\<close>

theorem executeLine_instruction_scan_first:
  "(0 \<le> ln \<and> ln < int (length (starts e)) \<and> ln < int (length (ends e)) \<longrightarrow>
      ((if reverse then \<exists>a. starts e ! nat ln - 1 \<le> a \<and> a < instruction e \<and> a \<in> instrBps e
        else \<exists>a. instruction e < a \<and> a \<le> ends e ! nat ln \<and> a \<in> instrBps e) \<longrightarrow>
       (\<exists>a. a \<in> instrBps e \<and>
            (if reverse then \<forall>b. a < b \<and> b < instruction e \<longrightarrow> b \<notin> instrBps e
             else \<forall>b. instruction e < b \<and> b < a \<longrightarrow> b \<notin> instrBps e) \<and>
            executeLine ln reverse e =
              Inr (True, e\<lparr> instruction := a,
                              dbg := dbg e @ [OnStopOnInstructionBreakpoint ln (currentCol e)] \<rparr>))) \<and>
      (\<not> (if reverse then \<exists>a. starts e ! nat ln - 1 \<le> a \<and> a < instruction e \<and> a \<in> instrBps e
           else \<exists>a. instruction e < a \<and> a \<le> ends e ! nat ln \<and> a \<in> instrBps e) \<longrightarrow>
       (\<exists>stop e' new. executeLine ln reverse e = Inr (stop, e') \<and> dbg e' = dbg e @ new \<and>
            (\<forall>l c. OnStopOnInstructionBreakpoint l c \<notin> set new)))) \<and>
   (0 \<le> ln \<and> ln < int (length (ts_starts r)) \<and> ln < int (length (ts_ends r)) \<longrightarrow>
      ((if reverse
        then \<exists>a. ts_starts r ! nat ln - 1 \<le> a \<and> a < ts_instruction r \<and> a \<in> ts_instructionBreakpoints r
        else \<exists>a. ts_instruction r < a \<and> a \<le> ts_ends r ! nat ln \<and> a \<in> ts_instructionBreakpoints r) \<longrightarrow>
       (\<exists>a. a \<in> ts_instructionBreakpoints r \<and>
            (if reverse then \<forall>b. a < b \<and> b < ts_instruction r \<longrightarrow> b \<notin> ts_instructionBreakpoints r
             else \<forall>b. ts_instruction r < b \<and> b < a \<longrightarrow> b \<notin> ts_instructionBreakpoints r) \<and>
            ts_executeLine ln reverse r =
              (True, r\<lparr> ts_instruction := a,
                         ts_events := ts_events r @
                           [TsStopOnInstructionBreakpoint (ts_currentLine r) (ts_currentColumn r)] \<rparr>))) \<and>
      (\<not> (if reverse
           then \<exists>a. ts_starts r ! nat ln - 1 \<le> a \<and> a < ts_instruction r \<and> a \<in> ts_instructionBreakpoints r
           else \<exists>a. ts_instruction r < a \<and> a \<le> ts_ends r ! nat ln \<and> a \<in> ts_instructionBreakpoints r) \<longrightarrow>
       (\<exists>stop r' new. ts_executeLine ln reverse r = (stop, r') \<and> ts_events r' = ts_events r @ new \<and>
            (\<forall>l c. TsStopOnInstructionBreakpoint l c \<notin> set new))))"
proof (intro conjI impI)
  assume rng: "0 \<le> ln \<and> ln < int (length (starts e)) \<and> ln < int (length (ends e))"
  then have idx: "index (starts e) ln = Inr (starts e ! nat ln)" "index (ends e) ln = Inr (ends e ! nat ln)"
    by (simp_all add: index_in_range)
  assume hit: "if reverse then \<exists>a. starts e ! nat ln - 1 \<le> a \<and> a < instruction e \<and> a \<in> instrBps e
        else \<exists>a. instruction e < a \<and> a \<le> ends e ! nat ln \<and> a \<in> instrBps e"
  show "\<exists>a. a \<in> instrBps e \<and>
            (if reverse then \<forall>b. a < b \<and> b < instruction e \<longrightarrow> b \<notin> instrBps e
             else \<forall>b. instruction e < b \<and> b < a \<longrightarrow> b \<notin> instrBps e) \<and>
            executeLine ln reverse e =
              Inr (True, e\<lparr> instruction := a,
                              dbg := dbg e @ [OnStopOnInstructionBreakpoint ln (currentCol e)] \<rparr>)"
  proof (cases reverse)
    case True
    with hit have "\<exists>a. starts e ! nat ln - 1 \<le> a \<and> a < instruction e \<and> a \<in> instrBps e" by simp
    from scanReverse_hit[OF this] obtain a where
      a: "a \<in> instrBps e" "\<forall>b. a < b \<and> b < instruction e \<longrightarrow> b \<notin> instrBps e"
         "scanReverse (instrBps e) (starts e ! nat ln) (instruction e) = (True, a)" by blast
    show ?thesis using True a idx
      by (intro exI[of _ a]) (simp add: executeLine_def emit_def)
  next
    case False
    with hit have "\<exists>a. instruction e < a \<and> a \<le> ends e ! nat ln \<and> a \<in> instrBps e" by simp
    from scanForward_hit[OF this] obtain a where
      a: "a \<in> instrBps e" "\<forall>b. instruction e < b \<and> b < a \<longrightarrow> b \<notin> instrBps e"
         "scanForward (instrBps e) (ends e ! nat ln) (instruction e) = (True, a)" by blast
    show ?thesis using False a idx
      by (intro exI[of _ a]) (simp add: executeLine_def emit_def)
  qed
next
  assume rng: "0 \<le> ln \<and> ln < int (length (starts e)) \<and> ln < int (length (ends e))"
  then have idx: "index (starts e) ln = Inr (starts e ! nat ln)" "index (ends e) ln = Inr (ends e ! nat ln)"
    by (simp_all add: index_in_range)
  assume miss: "\<not> (if reverse then \<exists>a. starts e ! nat ln - 1 \<le> a \<and> a < instruction e \<and> a \<in> instrBps e
           else \<exists>a. instruction e < a \<and> a \<le> ends e ! nat ln \<and> a \<in> instrBps e)"
  have "\<exists>ip. (if reverse then scanReverse (instrBps e) (starts e ! nat ln) (instruction e)
          else scanForward (instrBps e) (ends e ! nat ln) (instruction e)) = (False, ip)"
  proof (cases reverse)
    case True
    with miss show ?thesis using scanReverse_miss[of "starts e ! nat ln" "instruction e" "instrBps e"] by simp
  next
    case False
    with miss show ?thesis using scanForward_miss[of "instruction e" "ends e ! nat ln" "instrBps e"] by simp
  qed
  then obtain ip where "(if reverse then scanReverse (instrBps e) (starts e ! nat ln) (instruction e)
          else scanForward (instrBps e) (ends e ! nat ln) (instruction e)) = (False, ip)" ..
  from executeLine_miss_effect[OF idx this] obtain stop e' outs ev where
    r: "executeLine ln reverse e = Inr (stop, e')"
       "dbg e' = dbg e @ outs @ (if stop then [ev] else [])" "\<forall>u \<in> set outs. isOutput u"
       "ev = OnStopOnDataBreakpoint ln (currentCol e) \<or> (\<exists>x. ev = OnStopOnException ln x (currentCol e))"
    by blast
  have "\<forall>l c. OnStopOnInstructionBreakpoint l c \<notin> set (outs @ (if stop then [ev] else []))"
    using r(3,4) by auto
  then show "\<exists>stop e' new. executeLine ln reverse e = Inr (stop, e') \<and> dbg e' = dbg e @ new \<and>
            (\<forall>l c. OnStopOnInstructionBreakpoint l c \<notin> set new)"
    using r(1,2) by blast
next
  assume rng: "0 \<le> ln \<and> ln < int (length (ts_starts r)) \<and> ln < int (length (ts_ends r))"
  then have idx: "at (ts_starts r) ln = Some (ts_starts r ! nat ln)" "at (ts_ends r) ln = Some (ts_ends r ! nat ln)"
    by (simp_all add: at_in_range)
  assume hit: "if reverse
       then \<exists>a. ts_starts r ! nat ln - 1 \<le> a \<and> a < ts_instruction r \<and> a \<in> ts_instructionBreakpoints r
       else \<exists>a. ts_instruction r < a \<and> a \<le> ts_ends r ! nat ln \<and> a \<in> ts_instructionBreakpoints r"
  show "\<exists>a. a \<in> ts_instructionBreakpoints r \<and>
            (if reverse then \<forall>b. a < b \<and> b < ts_instruction r \<longrightarrow> b \<notin> ts_instructionBreakpoints r
             else \<forall>b. ts_instruction r < b \<and> b < a \<longrightarrow> b \<notin> ts_instructionBreakpoints r) \<and>
            ts_executeLine ln reverse r =
              (True, r\<lparr> ts_instruction := a,
                         ts_events := ts_events r @
                           [TsStopOnInstructionBreakpoint (ts_currentLine r) (ts_currentColumn r)] \<rparr>)"
  proof (cases reverse)
    case True
    with hit have "\<exists>a. ts_starts r ! nat ln - 1 \<le> a \<and> a < ts_instruction r \<and> a \<in> ts_instructionBreakpoints r" by simp
    from scanReverse_hit[OF this] obtain a where
      a: "a \<in> ts_instructionBreakpoints r"
         "\<forall>b. a < b \<and> b < ts_instruction r \<longrightarrow> b \<notin> ts_instructionBreakpoints r"
         "scanReverse (ts_instructionBreakpoints r) (ts_starts r ! nat ln) (ts_instruction r) = (True, a)" by blast
    show ?thesis using True a idx
      by (intro exI[of _ a]) (simp add: ts_executeLine_def sendEvent_def)
  next
    case False
    with hit have "\<exists>a. ts_instruction r < a \<and> a \<le> ts_ends r ! nat ln \<and> a \<in> ts_instructionBreakpoints r" by simp
    from scanForward_hit[OF this] obtain a where
      a: "a \<in> ts_instructionBreakpoints r"
         "\<forall>b. ts_instruction r < b \<and> b < a \<longrightarrow> b \<notin> ts_instructionBreakpoints r"
         "scanForward (ts_instructionBreakpoints r) (ts_ends r ! nat ln) (ts_instruction r) = (True, a)" by blast
    show ?thesis using False a idx
      by (intro exI[of _ a]) (simp add: ts_executeLine_def sendEvent_def)
  qed
next
  assume rng: "0 \<le> ln \<and> ln < int (length (ts_starts r)) \<and> ln < int (length (ts_ends r))"
  then have idx: "at (ts_starts r) ln = Some (ts_starts r ! nat ln)" "at (ts_ends r) ln = Some (ts_ends r ! nat ln)"
    by (simp_all add: at_in_range)
  assume miss: "\<not> (if reverse
           then \<exists>a. ts_starts r ! nat ln - 1 \<le> a \<and> a < ts_instruction r \<and> a \<in> ts_instructionBreakpoints r
           else \<exists>a. ts_instruction r < a \<and> a \<le> ts_ends r ! nat ln \<and> a \<in> ts_instructionBreakpoints r)"
  have "\<exists>ip. (if reverse then scanReverse (ts_instructionBreakpoints r) (ts_starts r ! nat ln) (ts_instruction r)
          else scanForward (ts_instructionBreakpoints r) (ts_ends r ! nat ln) (ts_instruction r)) = (False, ip)"
  proof (cases reverse)
    case True
    with miss show ?thesis
      using scanReverse_miss[of "ts_starts r ! nat ln" "ts_instruction r" "ts_instructionBreakpoints r"] by simp
  next
    case False
    with miss show ?thesis
      using scanForward_miss[of "ts_instruction r" "ts_ends r ! nat ln" "ts_instructionBreakpoints r"] by simp
  qed
  then obtain ip where "(if reverse then scanReverse (ts_instructionBreakpoints r) (ts_starts r ! nat ln) (ts_instruction r)
          else scanForward (ts_instructionBreakpoints r) (ts_ends r ! nat ln) (ts_instruction r)) = (False, ip)" ..
  from ts_executeLine_miss_events[OF idx this]
  show "\<exists>stop r' new. ts_executeLine ln reverse r = (stop, r') \<and> ts_events r' = ts_events r @ new \<and>
            (\<forall>l c. TsStopOnInstructionBreakpoint l c \<notin> set new)" .
qed

text \<open>
  The claim as stated fails where the registered address is the one the pointer starts
  from. The text \<^verbatim>\<open>$x=1 $x\<close> is one line with the instruction range \<open>[0, 2)\<close>; with
  an instruction breakpoint at address 0, which lies in that range, and a data breakpoint
  on reads of \<^verbatim>\<open>x\<close>, \<^verbatim>\<open>executeLine(0, forward)\<close> from the loaded state stops with
  reason \<^verbatim>\<open>dataBreakpoint\<close>, in the Go engine and in the TypeScript runtime. With an
  empty first line the same text is line 1, and \<^verbatim>\<open>Continue(false)\<close> from line 0 stops
  there with \<^verbatim>\<open>dataBreakpoint\<close>: the instruction breakpoint within line 1's range
  never fires.
\<close>

theorem executeLine_range_start_counterexample:
  "starts (LoadSource (\<lambda>p. p) ''/prog.md'' ''$x=1 $x'' New) ! 0 = 0 \<and>
   ends (LoadSource (\<lambda>p. p) ''/prog.md'' ''$x=1 $x'' New) ! 0 = 2 \<and>
   instruction (LoadSource (\<lambda>p. p) ''/prog.md'' ''$x=1 $x'' New) = 0 \<and>
   (case executeLine 0 False
           (snd (SetDataBreakpoint ''x'' ''read''
             (snd (SetInstructionBreakpoint 0 (LoadSource (\<lambda>p. p) ''/prog.md'' ''$x=1 $x'' New))))) of
      Inr (stop, e') \<Rightarrow> stop \<and> dbg e' = [OnStopOnDataBreakpoint 0 None] \<and> instruction e' = 2
    | Inl p \<Rightarrow> False) \<and>
   (case ts_executeLine 0 False
           (snd (ts_setDataBreakpoint ''x'' ''read''
             (snd (ts_setInstructionBreakpoint 0 (initializeContents ''$x=1 $x'' ts_new))))) of
      (stop, r') \<Rightarrow> stop \<and> ts_events r' = [TsStopOnDataBreakpoint ''read'' 0 None]) \<and>
   starts (LoadSource (\<lambda>p. p) ''/prog.md'' ''\<newline>$x=1 $x'' New) ! 1 = 0 \<and>
   ends (LoadSource (\<lambda>p. p) ''/prog.md'' ''\<newline>$x=1 $x'' New) ! 1 = 2 \<and>
   (case Continue False
           (snd (SetDataBreakpoint ''x'' ''read''
             (snd (SetInstructionBreakpoint 0 (LoadSource (\<lambda>p. p) ''/prog.md'' ''\<newline>$x=1 $x'' New))))) of
      Some (Inr e') \<Rightarrow> dbg e' = [OnStopOnDataBreakpoint 1 None]
    | _ \<Rightarrow> False)"
  by (simp add: text_eval go_eval ts_eval)

text \<open>
  The theorem at the same text with the instruction breakpoint at address 1: both
  engines stop with \<^verbatim>\<open>instructionBreakpoint\<close> and leave \<^verbatim>\<open>x\<close> unseen, although the
  line assigns and reads \<^verbatim>\<open>x\<close> under a data breakpoint.
\<close>

theorem executeLine_instruction_scan_first_witness:
  "(0::int) \<le> 0 \<and>
   0 < int (length (starts (snd (SetDataBreakpoint ''x'' ''read''
         (snd (SetInstructionBreakpoint 1 (LoadSource (\<lambda>p. p) ''/prog.md'' ''$x=1 $x'' New))))))) \<and>
   (\<exists>a. instruction (snd (SetDataBreakpoint ''x'' ''read''
         (snd (SetInstructionBreakpoint 1 (LoadSource (\<lambda>p. p) ''/prog.md'' ''$x=1 $x'' New))))) < a \<and>
        a \<le> ends (snd (SetDataBreakpoint ''x'' ''read''
         (snd (SetInstructionBreakpoint 1 (LoadSource (\<lambda>p. p) ''/prog.md'' ''$x=1 $x'' New))))) ! nat 0 \<and>
        a \<in> instrBps (snd (SetDataBreakpoint ''x'' ''read''
         (snd (SetInstructionBreakpoint 1 (LoadSource (\<lambda>p. p) ''/prog.md'' ''$x=1 $x'' New)))))) \<and>
   (case executeLine 0 False
           (snd (SetDataBreakpoint ''x'' ''read''
             (snd (SetInstructionBreakpoint 1 (LoadSource (\<lambda>p. p) ''/prog.md'' ''$x=1 $x'' New))))) of
      Inr (stop, e') \<Rightarrow>
        stop \<and> dbg e' = [OnStopOnInstructionBreakpoint 0 None] \<and> instruction e' = 1 \<and>
        variables e' = {} \<and> locals e' ''x'' = None
    | Inl p \<Rightarrow> False) \<and>
   (\<exists>a. ts_instruction (snd (ts_setDataBreakpoint ''x'' ''read''
         (snd (ts_setInstructionBreakpoint 1 (initializeContents ''$x=1 $x'' ts_new))))) < a \<and>
        a \<le> ts_ends (snd (ts_setDataBreakpoint ''x'' ''read''
         (snd (ts_setInstructionBreakpoint 1 (initializeContents ''$x=1 $x'' ts_new))))) ! nat 0 \<and>
        a \<in> ts_instructionBreakpoints (snd (ts_setDataBreakpoint ''x'' ''read''
         (snd (ts_setInstructionBreakpoint 1 (initializeContents ''$x=1 $x'' ts_new)))))) \<and>
   (case ts_executeLine 0 False
           (snd (ts_setDataBreakpoint ''x'' ''read''
             (snd (ts_setInstructionBreakpoint 1 (initializeContents ''$x=1 $x'' ts_new))))) of
      (stop, r') \<Rightarrow>
        stop \<and> ts_events r' = [TsStopOnInstructionBreakpoint 0 None] \<and> ts_variables r' ''x'' = None)"
  using executeLine_instruction_scan_first
    [of 0 "snd (SetDataBreakpoint ''x'' ''read''
             (snd (SetInstructionBreakpoint 1 (LoadSource (\<lambda>p. p) ''/prog.md'' ''$x=1 $x'' New))))"
        False
        "snd (ts_setDataBreakpoint ''x'' ''read''
             (snd (ts_setInstructionBreakpoint 1 (initializeContents ''$x=1 $x'' ts_new))))"]
  by (simp add: text_eval go_eval ts_eval)

section \<open>Executing a line: the exception filters\<close>

lemma rwVarLoop_instruction:
  "rwVarLoop ln ms (e\<lparr> instruction := ip \<rparr>) =
     (case rwVarLoop ln ms e of (s, e') \<Rightarrow> (s, e'\<lparr> instruction := ip \<rparr>))"
proof (induction ms arbitrary: e)
  case Nil
  show ?case by simp
next
  case (Cons m ms)
  obtain name tok where m: "m = (name, tok)" by (cases m)
  show ?case
  proof (cases tok)
    case None
    show ?thesis using Cons.IH[of e]
      by (auto simp: m None Let_def emit_def split: option.splits)
  next
    case (Some t)
    have eq: "e\<lparr> instruction := ip, variables := V, locals := L \<rparr> =
              e\<lparr> variables := V, locals := L, instruction := ip \<rparr>" for V L
      by (rule Engine.equality) simp_all
    show ?thesis
      using Cons.IH[of "e\<lparr> variables := insert name (variables e), locals := (locals e)(name \<mapsto> parseToken t) \<rparr>"]
      by (auto simp: m Some Let_def emit_def eq split: option.splits)
  qed
qed

lemma scan_miss:
  assumes "\<not> (if reverse then \<exists>a. start - 1 \<le> a \<and> a < ip \<and> a \<in> B
              else \<exists>a. ip < a \<and> a \<le> end \<and> a \<in> B)"
  shows "\<exists>ip'. (if reverse then scanReverse B start ip else scanForward B end ip) = (False, ip')"
proof (cases reverse)
  case True
  with assms show ?thesis using scanReverse_miss[of start ip B] by simp
next
  case False
  with assms show ?thesis using scanForward_miss[of ip "end" B] by simp
qed

lemma go_exception_step:
  assumes rng: "0 \<le> ln" "ln < int (length (starts e))" "ln < int (length (ends e))"
    and miss: "\<not> (if reverse then \<exists>a. starts e ! nat ln - 1 \<le> a \<and> a < instruction e \<and> a \<in> instrBps e
                 else \<exists>a. instruction e < a \<and> a \<le> ends e ! nat ln \<and> a \<in> instrBps e)"
    and nodata: "\<not> fst (rwVarLoop ln (rwFindAll False 0 (TrimSpace (getLine e ln))) e)"
  shows "\<exists>e'. executeLine ln reverse e =
        Inr ((case excName False (TrimSpace (getLine e ln)) of
                Some m \<Rightarrow> namedException e = Some (TrimSpace m) \<or> otherExceptions e
              | None \<Rightarrow> excToken (TrimSpace (getLine e ln)) \<and> otherExceptions e), e') \<and>
      dbg e' = dbg e @
        map (\<lambda>(cat, payload, i). OnOutput cat payload (sourceFile e) ln (int i))
          (logFindAll 0 0 (TrimSpace (getLine e ln))) @
        (case excName False (TrimSpace (getLine e ln)) of
           Some m \<Rightarrow>
             if namedException e = Some (TrimSpace m) then [OnStopOnException ln (Some (TrimSpace m)) (currentCol e)]
             else if otherExceptions e then [OnStopOnException ln None (currentCol e)] else []
         | None \<Rightarrow>
             if excToken (TrimSpace (getLine e ln)) \<and> otherExceptions e
             then [OnStopOnException ln None (currentCol e)] else [])"
proof -
  let ?text = "TrimSpace (getLine e ln)"
  from rng have idx: "index (starts e) ln = Inr (starts e ! nat ln)" "index (ends e) ln = Inr (ends e ! nat ln)"
    by (simp_all add: index_in_range)
  from scan_miss[OF miss] obtain ip where sc:
    "(if reverse then scanReverse (instrBps e) (starts e ! nat ln) (instruction e)
      else scanForward (instrBps e) (ends e ! nat ln) (instruction e)) = (False, ip)" ..
  obtain e2 where rw: "rwVarLoop ln (rwFindAll False 0 ?text) (e\<lparr> instruction := ip \<rparr>) = (False, e2)"
    using nodata by (cases "rwVarLoop ln (rwFindAll False 0 ?text) e") (auto simp: rwVarLoop_instruction)
  from rwVarLoop_effect[OF rw] have f2: "lineFrame e e2" and d2: "dbg e2 = dbg e"
    by (auto simp: lineFrame_def)
  let ?outs = "map (\<lambda>(cat, payload, i). OnOutput cat payload (sourceFile e2) ln (int i)) (logFindAll 0 0 ?text)"
  let ?e3 = "outputLoop ln (logFindAll 0 0 ?text) e2"
  have res: "executeLine ln reverse e = Inr (exceptionCheck ln ?text ?e3)"
    using executeLine_miss[OF idx sc] rw by simp
  have e3: "dbg ?e3 = dbg e @ ?outs" "namedException ?e3 = namedException e"
    "otherExceptions ?e3 = otherExceptions e" "currentCol ?e3 = currentCol e"
    using f2 d2 by (simp_all add: outputLoop_effect lineFrame_def)
  have sf: "sourceFile e2 = sourceFile e" using f2 by (simp add: lineFrame_def)
  show ?thesis
    unfolding res
    apply (rule exI[of _ "snd (exceptionCheck ln ?text ?e3)"])
    using e3 sf
    by (auto simp: exceptionCheck_def Let_def emit_def split: option.splits)
qed

lemma ts_rwVarLoop_instruction:
  "ts_rwVarLoop ms (r\<lparr> ts_instruction := ip \<rparr>) =
     (case ts_rwVarLoop ms r of (s, r') \<Rightarrow> (s, r'\<lparr> ts_instruction := ip \<rparr>))"
proof (induction ms arbitrary: r)
  case Nil
  show ?case by simp
next
  case (Cons m ms)
  obtain name tok where m: "m = (name, tok)" by (cases m)
  show ?case
  proof (cases tok)
    case None
    show ?thesis using Cons.IH[of r]
      by (auto simp: m None Let_def sendEvent_def split: option.splits)
  next
    case (Some t)
    have eq: "r\<lparr> ts_instruction := ip, ts_variables := V \<rparr> =
              r\<lparr> ts_variables := V, ts_instruction := ip \<rparr>" for V
      by (rule MockRuntime.equality) simp_all
    show ?thesis
      using Cons.IH[of "r\<lparr> ts_variables := (ts_variables r)(name \<mapsto> ts_parse t) \<rparr>"]
      by (auto simp: m Some Let_def sendEvent_def eq split: option.splits)
  qed
qed

lemma ts_exception_step:
  assumes rng: "0 \<le> ln" "ln < int (length (ts_starts r))" "ln < int (length (ts_ends r))"
    and miss: "\<not> (if reverse
         then \<exists>a. ts_starts r ! nat ln - 1 \<le> a \<and> a < ts_instruction r \<and> a \<in> ts_instructionBreakpoints r
         else \<exists>a. ts_instruction r < a \<and> a \<le> ts_ends r ! nat ln \<and> a \<in> ts_instructionBreakpoints r)"
    and nodata: "\<not> fst (ts_rwVarLoop (rwFindAll True 0 (ts_getLine r ln)) r)"
  shows "\<exists>r'. ts_executeLine ln reverse r =
        ((case excName True (ts_getLine r ln) of
            Some m \<Rightarrow> ts_namedException r = Some (TrimSpace m) \<or> ts_otherExceptions r
          | None \<Rightarrow> Contains (ts_getLine r ln) ''exception'' \<and> ts_otherExceptions r), r') \<and>
      ts_events r' = ts_events r @
        map (\<lambda>(cat, payload, i). TsOutput cat payload (ts_sourceFile r) ln (int i))
          (logFindAll 0 0 (ts_getLine r ln)) @
        (case excName True (ts_getLine r ln) of
           Some m \<Rightarrow>
             if ts_namedException r = Some (TrimSpace m)
             then [TsStopOnException (Some (TrimSpace m)) (ts_currentLine r) (ts_currentColumn r)]
             else if ts_otherExceptions r
             then [TsStopOnException None (ts_currentLine r) (ts_currentColumn r)] else []
         | None \<Rightarrow>
             if Contains (ts_getLine r ln) ''exception'' \<and> ts_otherExceptions r
             then [TsStopOnException None (ts_currentLine r) (ts_currentColumn r)] else [])"
proof -
  let ?text = "ts_getLine r ln"
  from rng have idx: "at (ts_starts r) ln = Some (ts_starts r ! nat ln)" "at (ts_ends r) ln = Some (ts_ends r ! nat ln)"
    by (simp_all add: at_in_range)
  from scan_miss[OF miss] obtain ip where sc:
    "(if reverse then scanReverse (ts_instructionBreakpoints r) (ts_starts r ! nat ln) (ts_instruction r)
      else scanForward (ts_instructionBreakpoints r) (ts_ends r ! nat ln) (ts_instruction r)) = (False, ip)" ..
  obtain r2 where rw: "ts_rwVarLoop (rwFindAll True 0 ?text) (r\<lparr> ts_instruction := ip \<rparr>) = (False, r2)"
    using nodata by (cases "ts_rwVarLoop (rwFindAll True 0 ?text) r") (auto simp: ts_rwVarLoop_instruction)
  from ts_rwVarLoop_effect[OF rw] have f2: "ts_lineFrame r r2" and d2: "ts_events r2 = ts_events r"
    by (auto simp: ts_lineFrame_def)
  let ?r3 = "ts_outputLoop ln (logFindAll 0 0 ?text) r2"
  have res: "ts_executeLine ln reverse r = ts_exceptionCheck ?text ?r3"
    using idx sc rw by (cases reverse) (simp_all add: ts_executeLine_def Let_def)
  have r3: "ts_events ?r3 = ts_events r @
      map (\<lambda>(cat, payload, i). TsOutput cat payload (ts_sourceFile r) ln (int i)) (logFindAll 0 0 ?text)"
    "ts_namedException ?r3 = ts_namedException r" "ts_otherExceptions ?r3 = ts_otherExceptions r"
    "ts_currentColumn ?r3 = ts_currentColumn r" "ts_currentLine ?r3 = ts_currentLine r"
    using f2 d2 by (simp_all add: ts_outputLoop_effect ts_lineFrame_def)
  show ?thesis
    unfolding res
    apply (rule exI[of _ "snd (ts_exceptionCheck ?text ?r3)"])
    using r3
    by (auto simp: ts_exceptionCheck_def Let_def sendEvent_def split: option.splits)
qed

text \<open>
  Claim C4, as the code has it. The exception filters are the last step of
  \<^verbatim>\<open>executeLine\<close>: they are reached only when the instruction-breakpoint scan has
  tested no registered address and the variable scan has not stopped. Given that, the
  call stops if and only if the trimmed line matches \<^verbatim>\<open>exception\((.*)\)\<close> and either
  the trimmed capture equals the named filter (the stop then carries that name) or
  ``other exceptions'' is enabled (stop without a name), or the line has no such match,
  ``other exceptions'' is enabled and the word \<^verbatim>\<open>exception\<close> occurs: between word
  boundaries in the Go engine, as a substring in the TypeScript runtime. The events of
  the call are the line's outputs followed by that one exception stop, if any. With the
  named filter \<^verbatim>\<open>Err\<close> and ``other exceptions'' off, \<^verbatim>\<open>Continue(false)\<close> over the
  five-line program stops on line 4 with exception \<^verbatim>\<open>Err\<close>, after the output of
  line 1, and sends no \<^verbatim>\<open>OnEnd\<close>.
\<close>

theorem executeLine_exception_filters:
  "(0 \<le> ln \<and> ln < int (length (starts e)) \<and> ln < int (length (ends e)) \<and>
    \<not> (if reverse then \<exists>a. starts e ! nat ln - 1 \<le> a \<and> a < instruction e \<and> a \<in> instrBps e
       else \<exists>a. instruction e < a \<and> a \<le> ends e ! nat ln \<and> a \<in> instrBps e) \<and>
    \<not> fst (rwVarLoop ln (rwFindAll False 0 (TrimSpace (getLine e ln))) e) \<longrightarrow>
    (\<exists>e'. executeLine ln reverse e =
        Inr ((case excName False (TrimSpace (getLine e ln)) of
                Some m \<Rightarrow> namedException e = Some (TrimSpace m) \<or> otherExceptions e
              | None \<Rightarrow> excToken (TrimSpace (getLine e ln)) \<and> otherExceptions e), e') \<and>
      dbg e' = dbg e @
        map (\<lambda>(cat, payload, i). OnOutput cat payload (sourceFile e) ln (int i))
          (logFindAll 0 0 (TrimSpace (getLine e ln))) @
        (case excName False (TrimSpace (getLine e ln)) of
           Some m \<Rightarrow>
             if namedException e = Some (TrimSpace m) then [OnStopOnException ln (Some (TrimSpace m)) (currentCol e)]
             else if otherExceptions e then [OnStopOnException ln None (currentCol e)] else []
         | None \<Rightarrow>
             if excToken (TrimSpace (getLine e ln)) \<and> otherExceptions e
             then [OnStopOnException ln None (currentCol e)] else []))) \<and>
   (0 \<le> ln \<and> ln < int (length (ts_starts r)) \<and> ln < int (length (ts_ends r)) \<and>
    \<not> (if reverse
       then \<exists>a. ts_starts r ! nat ln - 1 \<le> a \<and> a < ts_instruction r \<and> a \<in> ts_instructionBreakpoints r
       else \<exists>a. ts_instruction r < a \<and> a \<le> ts_ends r ! nat ln \<and> a \<in> ts_instructionBreakpoints r) \<and>
    \<not> fst (ts_rwVarLoop (rwFindAll True 0 (ts_getLine r ln)) r) \<longrightarrow>
    (\<exists>r'. ts_executeLine ln reverse r =
        ((case excName True (ts_getLine r ln) of
            Some m \<Rightarrow> ts_namedException r = Some (TrimSpace m) \<or> ts_otherExceptions r
          | None \<Rightarrow> Contains (ts_getLine r ln) ''exception'' \<and> ts_otherExceptions r), r') \<and>
      ts_events r' = ts_events r @
        map (\<lambda>(cat, payload, i). TsOutput cat payload (ts_sourceFile r) ln (int i))
          (logFindAll 0 0 (ts_getLine r ln)) @
        (case excName True (ts_getLine r ln) of
           Some m \<Rightarrow>
             if ts_namedException r = Some (TrimSpace m)
             then [TsStopOnException (Some (TrimSpace m)) (ts_currentLine r) (ts_currentColumn r)]
             else if ts_otherExceptions r
             then [TsStopOnException None (ts_currentLine r) (ts_currentColumn r)] else []
         | None \<Rightarrow>
             if Contains (ts_getLine r ln) ''exception'' \<and> ts_otherExceptions r
             then [TsStopOnException None (ts_currentLine r) (ts_currentColumn r)] else []))) \<and>
   (case Continue False (SetExceptionsFilters (Some ''Err'') False
           (LoadSource (\<lambda>p. p) ''/prog.md''
              ''\<newline>log(hello)\<newline>$x=1\<newline>$x\<newline>exception(Err)'' New)) of
      Some (Inr e') \<Rightarrow>
        dbg e' = [OnOutput ''log'' ''hello'' ''/prog.md'' 1 0, OnStopOnException 4 (Some ''Err'') None]
    | _ \<Rightarrow> False) \<and>
   (case ts_continue False (ts_setExceptionsFilters (Some ''Err'') False
           (initializeContents ''\<newline>log(hello)\<newline>$x=1\<newline>$x\<newline>exception(Err)''
              (ts_new\<lparr> ts_sourceFile := ''/prog.md'' \<rparr>))) of
      Some r' \<Rightarrow>
        ts_events r' = [TsOutput ''log'' ''hello'' ''/prog.md'' 1 0, TsStopOnException (Some ''Err'') 4 None]
    | None \<Rightarrow> False)"
proof (intro conjI)
  show "0 \<le> ln \<and> ln < int (length (starts e)) \<and> ln < int (length (ends e)) \<and>
    \<not> (if reverse then \<exists>a. starts e ! nat ln - 1 \<le> a \<and> a < instruction e \<and> a \<in> instrBps e
       else \<exists>a. instruction e < a \<and> a \<le> ends e ! nat ln \<and> a \<in> instrBps e) \<and>
    \<not> fst (rwVarLoop ln (rwFindAll False 0 (TrimSpace (getLine e ln))) e) \<longrightarrow>
    (\<exists>e'. executeLine ln reverse e =
        Inr ((case excName False (TrimSpace (getLine e ln)) of
                Some m \<Rightarrow> namedException e = Some (TrimSpace m) \<or> otherExceptions e
              | None \<Rightarrow> excToken (TrimSpace (getLine e ln)) \<and> otherExceptions e), e') \<and>
      dbg e' = dbg e @
        map (\<lambda>(cat, payload, i). OnOutput cat payload (sourceFile e) ln (int i))
          (logFindAll 0 0 (TrimSpace (getLine e ln))) @
        (case excName False (TrimSpace (getLine e ln)) of
           Some m \<Rightarrow>
             if namedException e = Some (TrimSpace m) then [OnStopOnException ln (Some (TrimSpace m)) (currentCol e)]
             else if otherExceptions e then [OnStopOnException ln None (currentCol e)] else []
         | None \<Rightarrow>
             if excToken (TrimSpace (getLine e ln)) \<and> otherExceptions e
             then [OnStopOnException ln None (currentCol e)] else []))"
    using go_exception_step[of ln e reverse] by blast
next
  show "0 \<le> ln \<and> ln < int (length (ts_starts r)) \<and> ln < int (length (ts_ends r)) \<and>
    \<not> (if reverse
       then \<exists>a. ts_starts r ! nat ln - 1 \<le> a \<and> a < ts_instruction r \<and> a \<in> ts_instructionBreakpoints r
       else \<exists>a. ts_instruction r < a \<and> a \<le> ts_ends r ! nat ln \<and> a \<in> ts_instructionBreakpoints r) \<and>
    \<not> fst (ts_rwVarLoop (rwFindAll True 0 (ts_getLine r ln)) r) \<longrightarrow>
    (\<exists>r'. ts_executeLine ln reverse r =
        ((case excName True (ts_getLine r ln) of
            Some m \<Rightarrow> ts_namedException r = Some (TrimSpace m) \<or> ts_otherExceptions r
          | None \<Rightarrow> Contains (ts_getLine r ln) ''exception'' \<and> ts_otherExceptions r), r') \<and>
      ts_events r' = ts_events r @
        map (\<lambda>(cat, payload, i). TsOutput cat payload (ts_sourceFile r) ln (int i))
          (logFindAll 0 0 (ts_getLine r ln)) @
        (case excName True (ts_getLine r ln) of
           Some m \<Rightarrow>
             if ts_namedException r = Some (TrimSpace m)
             then [TsStopOnException (Some (TrimSpace m)) (ts_currentLine r) (ts_currentColumn r)]
             else if ts_otherExceptions r
             then [TsStopOnException None (ts_currentLine r) (ts_currentColumn r)] else []
         | None \<Rightarrow>
             if Contains (ts_getLine r ln) ''exception'' \<and> ts_otherExceptions r
             then [TsStopOnException None (ts_currentLine r) (ts_currentColumn r)] else []))"
    using ts_exception_step[of ln r reverse] by blast
next
  show "case Continue False (SetExceptionsFilters (Some ''Err'') False
           (LoadSource (\<lambda>p. p) ''/prog.md''
              ''\<newline>log(hello)\<newline>$x=1\<newline>$x\<newline>exception(Err)'' New)) of
      Some (Inr e') \<Rightarrow>
        dbg e' = [OnOutput ''log'' ''hello'' ''/prog.md'' 1 0, OnStopOnException 4 (Some ''Err'') None]
    | _ \<Rightarrow> False"
    by (simp add: text_eval go_eval)
next
  show "case ts_continue False (ts_setExceptionsFilters (Some ''Err'') False
           (initializeContents ''\<newline>log(hello)\<newline>$x=1\<newline>$x\<newline>exception(Err)''
              (ts_new\<lparr> ts_sourceFile := ''/prog.md'' \<rparr>))) of
      Some r' \<Rightarrow>
        ts_events r' = [TsOutput ''log'' ''hello'' ''/prog.md'' 1 0, TsStopOnException (Some ''Err'') 4 None]
    | None \<Rightarrow> False"
    by (simp add: text_eval ts_eval)
qed

text \<open>
  The claim as stated (stop with reason exception if and only if the line and the
  filters match, for every line and filter configuration) fails in two ways. The line
  \<^verbatim>\<open>exception(Err)\<close> under the named filter \<^verbatim>\<open>Err\<close> stops with reason
  \<^verbatim>\<open>instructionBreakpoint\<close> when address 1 is registered. And the line
  \<^verbatim>\<open>exceptions are rare\<close> under ``other exceptions'' does not stop in the Go engine
  but stops with reason exception in the TypeScript runtime: what counts as the bare
  word depends on the engine.
\<close>

theorem executeLine_exception_counterexample:
  "excName False (TrimSpace ''exception(Err)'') = Some ''Err'' \<and>
   namedException (snd (SetInstructionBreakpoint 1 (SetExceptionsFilters (Some ''Err'') False
       (LoadSource (\<lambda>p. p) ''/prog.md'' ''exception(Err)'' New)))) = Some ''Err'' \<and>
   (case executeLine 0 False
           (snd (SetInstructionBreakpoint 1 (SetExceptionsFilters (Some ''Err'') False
              (LoadSource (\<lambda>p. p) ''/prog.md'' ''exception(Err)'' New)))) of
      Inr (stop, e') \<Rightarrow> stop \<and> dbg e' = [OnStopOnInstructionBreakpoint 0 None]
    | Inl p \<Rightarrow> False) \<and>
   (case executeLine 0 False
           (SetExceptionsFilters None True
              (LoadSource (\<lambda>p. p) ''/prog.md'' ''exceptions are rare'' New)) of
      Inr (stop, e') \<Rightarrow> \<not> stop \<and> dbg e' = []
    | Inl p \<Rightarrow> False) \<and>
   (case ts_executeLine 0 False
           (ts_setExceptionsFilters None True (initializeContents ''exceptions are rare'' ts_new)) of
      (stop, r') \<Rightarrow> stop \<and> ts_events r' = [TsStopOnException None 0 None])"
  by (simp add: text_eval go_eval ts_eval)

text \<open>
  The theorem at line 4 of the five-line program: the Go engine with the named filter
  \<^verbatim>\<open>Err\<close> stops with that name; the TypeScript runtime with only ``other
  exceptions'' enabled stops without a name.
\<close>

theorem executeLine_exception_filters_witness:
  "(0::int) \<le> 4 \<and>
   4 < int (length (starts (SetExceptionsFilters (Some ''Err'') False
           (LoadSource (\<lambda>p. p) ''/prog.md''
              ''\<newline>log(hello)\<newline>$x=1\<newline>$x\<newline>exception(Err)'' New)))) \<and>
   \<not> (\<exists>a. instruction (SetExceptionsFilters (Some ''Err'') False
           (LoadSource (\<lambda>p. p) ''/prog.md''
              ''\<newline>log(hello)\<newline>$x=1\<newline>$x\<newline>exception(Err)'' New)) < a \<and>
         a \<in> instrBps (SetExceptionsFilters (Some ''Err'') False
           (LoadSource (\<lambda>p. p) ''/prog.md''
              ''\<newline>log(hello)\<newline>$x=1\<newline>$x\<newline>exception(Err)'' New))) \<and>
   (\<exists>e'. executeLine 4 False (SetExceptionsFilters (Some ''Err'') False
           (LoadSource (\<lambda>p. p) ''/prog.md''
              ''\<newline>log(hello)\<newline>$x=1\<newline>$x\<newline>exception(Err)'' New)) = Inr (True, e') \<and>
         dbg e' = [OnStopOnException 4 (Some ''Err'') None]) \<and>
   (\<exists>r'. ts_executeLine 4 False (ts_setExceptionsFilters None True
           (initializeContents ''\<newline>log(hello)\<newline>$x=1\<newline>$x\<newline>exception(Err)'' ts_new))
          = (True, r') \<and>
         ts_events r' = [TsStopOnException None 0 None])"
  using executeLine_exception_filters
    [of 4 "SetExceptionsFilters (Some ''Err'') False
           (LoadSource (\<lambda>p. p) ''/prog.md''
              ''\<newline>log(hello)\<newline>$x=1\<newline>$x\<newline>exception(Err)'' New)"
        False
        "ts_setExceptionsFilters None True
           (initializeContents ''\<newline>log(hello)\<newline>$x=1\<newline>$x\<newline>exception(Err)'' ts_new)"]
  by (simp add: text_eval go_eval ts_eval)

section \<open>Setting a variable through the interface\<close>

lemma rwVarLoop_unseen_inert:
  "name \<notin> variables e \<Longrightarrow> \<forall>t. (name, Some t) \<notin> set ms \<Longrightarrow>
   rwVarLoop ln ms e = rwVarLoop ln (filter (\<lambda>m. fst m \<noteq> name) ms) e"
proof (induction ms arbitrary: e)
  case Nil
  show ?case by simp
next
  case (Cons m ms)
  obtain n tok where m: "m = (n, tok)" by (cases m)
  from Cons.prems have rest: "\<forall>t. (name, Some t) \<notin> set ms" by auto
  show ?case
  proof (cases "n = name")
    case True
    with Cons.prems m have tok: "tok = None" by (cases tok) auto
    show ?thesis using Cons.IH[OF Cons.prems(1) rest] Cons.prems(1)
      by (simp add: m True tok)
  next
    case False
    define e1 where "e1 = (case tok of
       Some t \<Rightarrow> e\<lparr> variables := insert n (variables e), locals := (locals e)(n \<mapsto> parseToken t) \<rparr>
     | None \<Rightarrow> e)"
    have "name \<notin> variables e1" using Cons.prems(1) False by (auto simp: e1_def split: option.splits)
    from Cons.IH[OF this rest] show ?thesis
      using False by (simp add: m e1_def Let_def split: option.splits)
  qed
qed

text \<open>
  Claim C10, as the code has it. In the Go engine \<^verbatim>\<open>SetVariable\<close> stores the value
  under the name in the local value table and changes nothing else: the engine after
  the call is the engine before it with that one entry of \<open>locals\<close> written, so the
  set of names seen, the data breakpoints, the breakpoints, the filters, the cursor and
  the sink are as before. So for a name not seen before, and a line with no assignment token for it,
  the variable scan after \<^verbatim>\<open>SetVariable\<close> runs as if the bare references to the name
  were not on the line: they are no classified access and stop nothing, whatever data
  breakpoint is registered for the name; a line whose variable tokens are all such
  references does not stop and changes nothing. In the TypeScript runtime the table of
  values is also the table of names seen: \<^verbatim>\<open>setVariable\<close> writes that one table and
  nothing else, after it the name is in the table, and
  a bare reference to it is a read that stops with \<^verbatim>\<open>dataBreakpoint\<close> when the name's
  data breakpoint mode contains \<^verbatim>\<open>read\<close>.
\<close>

theorem SetVariable_does_not_mark_seen:
  "SetVariable name v e = e\<lparr> locals := (locals e)(name \<mapsto> v) \<rparr> \<and>
   locals (SetVariable name v e) name = Some v \<and>
   variables (SetVariable name v e) = variables e \<and>
   dataBps (SetVariable name v e) = dataBps e \<and>
   dbg (SetVariable name v e) = dbg e \<and>
   (name \<notin> variables e \<and> (\<forall>t. (name, Some t) \<notin> set (rwFindAll False 0 text)) \<longrightarrow>
      rwVarLoop ln (rwFindAll False 0 text) (SetVariable name v e) =
        rwVarLoop ln (filter (\<lambda>m. fst m \<noteq> name) (rwFindAll False 0 text)) (SetVariable name v e) \<and>
      ((\<forall>m \<in> set (rwFindAll False 0 text). fst m = name) \<longrightarrow>
         rwVarLoop ln (rwFindAll False 0 text) (SetVariable name v e) = (False, SetVariable name v e))) \<and>
   ts_setVariable name w r = r\<lparr> ts_variables := (ts_variables r)(name \<mapsto> w) \<rparr> \<and>
   ts_variables (ts_setVariable name w r) name = Some w \<and>
   (\<forall>mode. ts_breakAddresses r name = Some mode \<and> Contains mode ''read'' \<longrightarrow>
      ts_rwVarLoop ((name, None) # ms) (ts_setVariable name w r) =
        (True, sendEvent (TsStopOnDataBreakpoint ''read'' (ts_currentLine r) (ts_currentColumn r))
                 (ts_setVariable name w r)))"
proof (intro conjI impI allI)
  assume h: "name \<notin> variables e \<and> (\<forall>t. (name, Some t) \<notin> set (rwFindAll False 0 text))"
  then have u: "name \<notin> variables (SetVariable name v e)" by (simp add: SetVariable_def)
  from rwVarLoop_unseen_inert[OF u] h
  show eq: "rwVarLoop ln (rwFindAll False 0 text) (SetVariable name v e) =
        rwVarLoop ln (filter (\<lambda>m. fst m \<noteq> name) (rwFindAll False 0 text)) (SetVariable name v e)"
    by blast
  assume "\<forall>m \<in> set (rwFindAll False 0 text). fst m = name"
  then have "filter (\<lambda>m. fst m \<noteq> name) (rwFindAll False 0 text) = []"
    by (auto simp: filter_empty_conv)
  with eq show "rwVarLoop ln (rwFindAll False 0 text) (SetVariable name v e) = (False, SetVariable name v e)"
    by simp
qed (simp_all add: SetVariable_def ts_setVariable_def sendEvent_def Let_def)

text \<open>
  The claim as stated fails in the TypeScript runtime. The source is the one line
  \<^verbatim>\<open>$x\<close>; \<^verbatim>\<open>x\<close> is set through \<^verbatim>\<open>setVariable\<close> and never assigned by a token; a
  data breakpoint on reads of \<^verbatim>\<open>x\<close> is registered. \<^verbatim>\<open>continue(false)\<close> stops on line
  0 with \<^verbatim>\<open>dataBreakpoint\<close>.
\<close>

theorem setVariable_marks_seen_counterexample:
  "rwFindAll True 0 ''$x'' = [(''x'', None)] \<and>
   (case ts_continue False
           (snd (ts_setDataBreakpoint ''x'' ''read''
              (ts_setVariable ''x'' (TNum 1) (initializeContents ''$x'' ts_new)))) of
      Some r' \<Rightarrow> ts_events r' = [TsStopOnDataBreakpoint ''read'' 0 None]
    | None \<Rightarrow> False)"
  by (simp add: text_eval ts_eval)

text \<open>
  The theorem at the name \<^verbatim>\<open>x\<close>, never seen, with a data breakpoint on its reads:
  in the Go engine the line \<^verbatim>\<open>$x and $x\<close> does not stop, and \<^verbatim>\<open>Continue(false)\<close> over
  the source \<^verbatim>\<open>$x\<close> runs to the end; in the TypeScript runtime the reference stops.
\<close>

theorem SetVariable_does_not_mark_seen_witness:
  "''x'' \<notin> variables (snd (SetDataBreakpoint ''x'' ''read'' (LoadSource (\<lambda>p. p) ''/prog.md'' ''$x'' New))) \<and>
   rwFindAll False 0 ''$x and $x'' = [(''x'', None), (''x'', None)] \<and>
   rwVarLoop 0 (rwFindAll False 0 ''$x and $x'')
      (SetVariable ''x'' (VInt 1) (snd (SetDataBreakpoint ''x'' ''read'' (LoadSource (\<lambda>p. p) ''/prog.md'' ''$x'' New))))
    = (False, SetVariable ''x'' (VInt 1) (snd (SetDataBreakpoint ''x'' ''read'' (LoadSource (\<lambda>p. p) ''/prog.md'' ''$x'' New)))) \<and>
   (case Continue False
           (SetVariable ''x'' (VInt 1)
              (snd (SetDataBreakpoint ''x'' ''read'' (LoadSource (\<lambda>p. p) ''/prog.md'' ''$x'' New)))) of
      Some (Inr e') \<Rightarrow> dbg e' = [OnEnd]
    | _ \<Rightarrow> False) \<and>
   ts_rwVarLoop [(''x'', None)]
      (ts_setVariable ''x'' (TNum 1) (snd (ts_setDataBreakpoint ''x'' ''read'' (initializeContents ''$x'' ts_new))))
    = (True, sendEvent (TsStopOnDataBreakpoint ''read'' 0 None)
         (ts_setVariable ''x'' (TNum 1) (snd (ts_setDataBreakpoint ''x'' ''read'' (initializeContents ''$x'' ts_new)))))"
  using SetVariable_does_not_mark_seen
    [of "''x''" "VInt 1" "snd (SetDataBreakpoint ''x'' ''read'' (LoadSource (\<lambda>p. p) ''/prog.md'' ''$x'' New))"
        "''$x and $x''" 0 "TNum 1"
        "snd (ts_setDataBreakpoint ''x'' ''read'' (initializeContents ''$x'' ts_new))" "[]"]
  by (simp add: text_eval go_eval ts_eval)

section \<open>Pause\<close>

text \<open>
  Claim C6, as the code has it. In the Go engine \<^verbatim>\<open>Pause\<close> on an engine that is not
  paused sets the flag and sends an output event with the trimmed current line and then
  the pause stop, in this order, and changes nothing else; on a paused engine it does
  nothing. So a second call directly after the first sends nothing: two calls send one
  pause stop. The C\# engine does the same on a document that has lines. The TypeScript
  runtime has no paused flag: every call of \<^verbatim>\<open>pause\<close> sends one pause stop, and never
  an output event.
\<close>

theorem Pause_idempotent:
  "(\<not> paused e \<longrightarrow>
      Pause e = e\<lparr> dbg := dbg e @
                    [OnOutput ''stdout'' (TrimSpace (getLine e (currentLine e))) (sourceFile e) (currentLine e) 0,
                     OnStopOnPause (currentLine e) (currentCol e)],
                  paused := True \<rparr> \<and>
      dbg (Pause (Pause e)) = dbg e @
                    [OnOutput ''stdout'' (TrimSpace (getLine e (currentLine e))) (sourceFile e) (currentLine e) 0,
                     OnStopOnPause (currentLine e) (currentCol e)]) \<and>
   (paused e \<longrightarrow> Pause e = e) \<and>
   Pause (Pause e) = Pause e \<and>
   (\<not> cs_paused c \<and> cs_sourceLines c \<noteq> [] \<longrightarrow>
      (\<exists>l c'. GetLine c (cs_currentLine c) = Inr l \<and> cs_Pause c = Inr c' \<and> cs_paused c' \<and>
         cs_debugger c' = cs_debugger c @
           [CsOnOutput ''stdout'' (TrimSpace l) (cs_sourceFile c) (cs_currentLine c) 0,
            CsOnStopOnPause (cs_currentLine c) (cs_currentColumn c)] \<and>
         cs_Pause c' = Inr c')) \<and>
   ts_pause r = r\<lparr> ts_events := ts_events r @ [TsStopOnPause (ts_currentLine r) (ts_currentColumn r)] \<rparr>"
  by (auto simp: Pause_def emit_def getLine_def Let_def cs_Pause_def cs_emit_def GetLine_def Clamp_def
        ts_pause_def sendEvent_def)

text \<open>
  The claim as stated fails in the TypeScript runtime: two consecutive calls of
  \<^verbatim>\<open>pause\<close> send two pause stops, and no output event echoes the line.
\<close>

theorem pause_twice_counterexample:
  "ts_events (ts_pause (ts_pause (initializeContents ''  hello  '' ts_new))) =
     [TsStopOnPause 0 None, TsStopOnPause 0 None]"
  by (simp add: text_eval ts_eval)

text \<open>The theorem at a loaded one-line source, in the Go and the C\# engine.\<close>

theorem Pause_idempotent_witness:
  "\<not> paused (LoadSource (\<lambda>p. p) ''/prog.md'' ''  hello  '' New) \<and>
   dbg (Pause (LoadSource (\<lambda>p. p) ''/prog.md'' ''  hello  '' New)) =
     [OnOutput ''stdout'' ''hello'' ''/prog.md'' 0 0, OnStopOnPause 0 None] \<and>
   dbg (Pause (Pause (LoadSource (\<lambda>p. p) ''/prog.md'' ''  hello  '' New))) =
     [OnOutput ''stdout'' ''hello'' ''/prog.md'' 0 0, OnStopOnPause 0 None] \<and>
   paused (Pause (LoadSource (\<lambda>p. p) ''/prog.md'' ''  hello  '' New)) \<and>
   \<not> cs_paused (cs_new\<lparr> cs_sourceLines := [''  hello  ''] \<rparr>) \<and>
   (case cs_Pause (cs_new\<lparr> cs_sourceLines := [''  hello  ''] \<rparr>) of
      Inr c' \<Rightarrow> cs_debugger c' = [CsOnOutput ''stdout'' ''hello'' [] 0 0, CsOnStopOnPause 0 None] \<and>
                cs_Pause c' = Inr c'
    | Inl x \<Rightarrow> False)"
  using Pause_idempotent [of "LoadSource (\<lambda>p. p) ''/prog.md'' ''  hello  '' New"
      "cs_new\<lparr> cs_sourceLines := [''  hello  ''] \<rparr>" ts_new]
  by (simp add: text_eval go_eval cs_new_def cs_Pause_def cs_emit_def GetLine_def Clamp_def)

section \<open>Stepping by column\<close>




lemma bitLength_eq: "0 < k \<Longrightarrow> 2 ^ (k - 1) \<le> n \<Longrightarrow> n < 2 ^ k \<Longrightarrow> bitLength n = k"
proof (induction n arbitrary: k rule: bitLength.induct)
  case (1 n)
  have "0 < (2::nat) ^ (k - 1)" by simp
  with "1.prems" have n0: "n \<noteq> 0" by linarith
  obtain j where k: "k = Suc j" using "1.prems" by (cases k) auto
  show ?case
  proof (cases j)
    case 0
    with "1.prems" k have "n = 1" by simp
    then show ?thesis using k 0 by (simp add: bitLength.simps)
  next
    case (Suc i)
    have "2 ^ (j - 1) \<le> n div 2" "n div 2 < 2 ^ j" "0 < j" using "1.prems" k Suc by auto
    from "1.IH"[OF n0 this(3,1,2)] show ?thesis using n0 k by (subst bitLength.simps) simp
  qed
qed




text \<open>
  Beyond that range the arithmetic rounds: from the column \<open>2\<^sup>5\<^sup>3 + 2\<close> the runtime's
  \<^verbatim>\<open>stepOut\<close> goes to \<open>2\<^sup>5\<^sup>3\<close>, since \<open>2\<^sup>5\<^sup>3 + 1\<close> is no binary64 value; and from
  \<open>2\<^sup>5\<^sup>3\<close> its \<^verbatim>\<open>stepIn\<close> stays at \<open>2\<^sup>5\<^sup>3\<close>. From the column one half \<^verbatim>\<open>stepOut\<close> goes to minus one half,
  not to zero.
\<close>

lemma jsPlus_rounds:
  "jsPlus (Num (2 ^ 53 + 2)) (- 1) = Num (2 ^ 53)"
  "jsPlus (Num (2 ^ 53)) 1 = Num (2 ^ 53)"
  "jsPlus (Num (1 / 2)) (- 1) = Num (- 1 / 2)"
proof -
  have b1: "bitLength (nat \<lfloor>(2 ^ 53 + 1) * (2::rat) ^ 1074\<rfloor>) = 1128"
    by (rule bitLength_eq) simp_all
  have b2: "bitLength (nat \<lfloor>(2::rat) ^ 1073\<rfloor>) = 1074"
    by (rule bitLength_eq) simp_all
  have fl: "\<lfloor>(numeral a :: rat) / numeral b\<rfloor> = numeral a div numeral b" for a b
    using floor_divide_of_int_eq[of "numeral a" "numeral b", where ?'a = rat] by simp
  show "jsPlus (Num (2 ^ 53 + 2)) (- 1) = Num (2 ^ 53)"
    using b1 by (simp add: jsPlus_def toDouble_def roundHalfEven_def Let_def fl)
  show "jsPlus (Num (2 ^ 53)) 1 = Num (2 ^ 53)"
    using b1 by (simp add: jsPlus_def toDouble_def roundHalfEven_def Let_def fl)
  show "jsPlus (Num (1 / 2)) (- 1) = Num (- 1 / 2)"
    using b2 by (simp add: jsPlus_def toDouble_def roundHalfEven_def Let_def fl)
qed




section \<open>Setting source breakpoints\<close>

lemma numbered_length [simp]: "length (numbered n xs) = length xs"
  by (induction xs arbitrary: n) simp_all


lemma verifyLine_frame [simp]:
  "verifyLine (e\<lparr> nextBpID := n \<rparr>) l = verifyLine e l"
  "verifyLine (e\<lparr> bps := b \<rparr>) l = verifyLine e l"
  "verifyLine (e\<lparr> dbg := d \<rparr>) l = verifyLine e l"
  by (simp_all add: verifyLine_def)




lemma cs_verified_frame [simp]:
  "cs_verified (c\<lparr> cs_nextBpId := n \<rparr>) l = cs_verified c l"
  "cs_verified (c\<lparr> cs_bps := b \<rparr>) l = cs_verified c l"
  "cs_verified (c\<lparr> cs_debugger := d \<rparr>) l = cs_verified c l"
  by (simp_all add: cs_verified_def)





section \<open>Step over\<close>

lemma executeLine_total:
  assumes "0 \<le> ln" "ln < int (length (starts e))" "ln < int (length (ends e))"
  shows "\<exists>stop e'. executeLine ln reverse e = Inr (stop, e')"
  using assms
  by (auto simp: executeLine_def index_def Let_def split: prod.splits
        simp del: scanForward.simps scanReverse.simps)

lemma executeLine_stop_kind:
  assumes "executeLine ln reverse e = Inr (True, e')"
  shows "\<exists>outs ev. dbg e' = dbg e @ outs @ [ev] \<and> (\<forall>u \<in> set outs. isOutput u) \<and> isStop ev \<and>
           (\<forall>l c. ev \<noteq> OnStopOnStep l c)"
proof -
  from assms obtain start "end" where idx: "index (starts e) ln = Inr start" "index (ends e) ln = Inr end"
    by (auto simp: executeLine_def split: sum.splits)
  obtain hit ip where sc: "(if reverse then scanReverse (instrBps e) start (instruction e)
          else scanForward (instrBps e) end (instruction e)) = (hit, ip)"
    by (cases "if reverse then scanReverse (instrBps e) start (instruction e)
          else scanForward (instrBps e) end (instruction e)") auto
  show ?thesis
  proof (cases hit)
    case True
    with assms idx sc have "e' = emit (OnStopOnInstructionBreakpoint ln (currentCol e)) (e\<lparr> instruction := ip \<rparr>)"
      by (auto simp: executeLine_def Let_def)
    then show ?thesis
      by (intro exI[of _ "[]"] exI[of _ "OnStopOnInstructionBreakpoint ln (currentCol e)"]) (simp add: emit_def)
  next
    case False
    with sc have sc': "(if reverse then scanReverse (instrBps e) start (instruction e)
          else scanForward (instrBps e) end (instruction e)) = (False, ip)" by simp
    from executeLine_miss_effect[OF idx sc'] assms obtain outs ev where
      "dbg e' = dbg e @ outs @ [ev]" "\<forall>u \<in> set outs. isOutput u"
      "ev = OnStopOnDataBreakpoint ln (currentCol e) \<or> (\<exists>x. ev = OnStopOnException ln x (currentCol e))"
      by auto
    then show ?thesis by (intro exI[of _ outs] exI[of _ ev]) auto
  qed
qed

lemma findNextFrom_events:
  "length (starts e) = length (sourceLines e) \<Longrightarrow> length (ends e) = length (sourceLines e) \<Longrightarrow>
   0 \<le> ln \<Longrightarrow> ln < int (length (sourceLines e)) \<Longrightarrow>
   \<exists>found e' new. findNextFrom reverse ln e = Inr (found, e') \<and> dbg e' = dbg e @ new \<and>
      currentCol e' = currentCol e \<and> (\<not> found \<longrightarrow> new = [])"
proof (induction reverse ln e rule: findNextFrom.induct)
  case (1 reverse ln e)
  let ?addr = "if reverse then starts e ! nat ln else ends e ! nat ln - 1"
  have idx: "index (starts e) ln = Inr (starts e ! nat ln)" "index (ends e) ln = Inr (ends e ! nat ln)"
    using "1.prems" by (simp_all add: index_def)
  then have addr: "(if reverse then index (starts e) ln
       else case index (ends e) ln of Inl p \<Rightarrow> Inl p | Inr v \<Rightarrow> Inr (v - 1)) = Inr ?addr"
    by simp
  show ?case
  proof (cases "case bps e (sourceFile e) of None \<Rightarrow> None | Some list \<Rightarrow> find (\<lambda>bp. Line bp = ln) list")
    case (Some bp)
    then show ?thesis
      by (subst findNextFrom.simps) (auto simp: Let_def emit_def)
  next
    case None
    show ?thesis
    proof (cases "?addr \<in> instrBps e")
      case True
      then show ?thesis using None addr
        by (subst findNextFrom.simps) (auto simp: Let_def emit_def)
    next
      case nib: False
      show ?thesis
      proof (cases "TrimSpace (getLine e ln) \<noteq> []")
        case True
        then show ?thesis using None addr nib
          by (subst findNextFrom.simps) (auto simp: Let_def emit_def)
      next
        case blank: False
        show ?thesis
        proof (cases reverse)
          case True
          show ?thesis
          proof (cases "ln \<le> 0")
            case le: True
            then show ?thesis using None addr nib blank True
              by (subst findNextFrom.simps) (auto simp: Let_def)
          next
            case gt: False
            have "\<exists>found e' new. findNextFrom reverse (ln - 1) e = Inr (found, e') \<and> dbg e' = dbg e @ new \<and>
                currentCol e' = currentCol e \<and> (\<not> found \<longrightarrow> new = [])"
              using "1.IH"(1)[OF None addr nib blank True gt] "1.prems" gt by simp
            then show ?thesis using None addr nib blank True gt
              by (subst findNextFrom.simps) (auto simp: Let_def)
          qed
        next
          case False
          show ?thesis
          proof (cases "int (length (sourceLines e)) \<le> ln + 1")
            case le: True
            then show ?thesis using None addr nib blank False
              by (subst findNextFrom.simps) (auto simp: Let_def)
          next
            case gt: False
            have "\<exists>found e' new. findNextFrom reverse (ln + 1) e = Inr (found, e') \<and> dbg e' = dbg e @ new \<and>
                currentCol e' = currentCol e \<and> (\<not> found \<longrightarrow> new = [])"
              using "1.IH"(2)[OF None addr nib blank False gt] "1.prems" gt by simp
            then show ?thesis using None addr nib blank False gt
              by (subst findNextFrom.simps) (auto simp: Let_def)
          qed
        qed
      qed
    qed
  qed
qed

lemma isOutput_not_stop: "isOutput u \<Longrightarrow> \<not> isStop u"
  by (cases u) simp_all

lemma filter_stop_outputs: "\<forall>u \<in> set outs. isOutput u \<Longrightarrow> filter isStop outs = []"
  by (auto simp: filter_empty_conv dest: isOutput_not_stop)

lemma normalize_onLine:
  assumes "onLine e"
  shows "\<exists>ip. normalize reverse e = Inr (e\<lparr> instruction := ip \<rparr>)"
  using assms by (auto simp: normalize_def onLine_def index_def)

lemma updateCurrentLine_effect:
  assumes "updateCurrentLine reverse e = (fin, e')"
  shows "starts e' = starts e \<and> ends e' = ends e \<and> sourceLines e' = sourceLines e \<and>
         (\<exists>new. dbg e' = dbg e @ new) \<and>
         (\<not> fin \<and> 0 \<le> currentLine e \<and> currentLine e < int (length (sourceLines e)) \<longrightarrow>
            0 \<le> currentLine e' \<and> currentLine e' < int (length (sourceLines e)))"
  using assms by (auto simp: updateCurrentLine_def emit_def split: if_splits)

lemma updateCurrentLine_quiet:
  assumes "updateCurrentLine reverse e = (fin, e')" "reverse \<longrightarrow> 0 < currentLine e"
  shows "dbg e' = dbg e"
  using assms by (auto simp: updateCurrentLine_def emit_def split: if_splits)

lemma Next_events:
  assumes wf: "onLine e"
  shows "\<exists>e0 stop e1 e' new.
      normalize reverse e = Inr e0 \<and> executeLine (currentLine e) reverse e0 = Inr (stop, e1) \<and>
      Next reverse e = Inr e' \<and> dbg e' = dbg e @ new \<and> 1 \<le> length (filter isStop new) \<and>
      (stop \<longrightarrow> e' = e1 \<and> length (filter isStop new) = 1 \<and> (\<forall>l c. OnStopOnStep l c \<notin> set new)) \<and>
      (\<not> stop \<and> (reverse \<longrightarrow> 0 < currentLine e) \<and>
       (\<not> fst (updateCurrentLine reverse e1) \<longrightarrow>
          (\<forall>e3. findNextStatement reverse (snd (updateCurrentLine reverse e1)) \<noteq> Inr (True, e3))) \<longrightarrow>
         filter isStop new = [OnStopOnStep (currentLine e') (currentCol e')] \<and>
         last new = OnStopOnStep (currentLine e') (currentCol e'))"
proof -
  from normalize_onLine[OF wf] obtain ip where n: "normalize reverse e = Inr (e\<lparr> instruction := ip \<rparr>)" ..
  let ?e0 = "e\<lparr> instruction := ip \<rparr>"
  have rng: "0 \<le> currentLine e" "currentLine e < int (length (starts ?e0))" "currentLine e < int (length (ends ?e0))"
    using wf by (simp_all add: onLine_def)
  from executeLine_total[OF rng] obtain stop e1 where
    x: "executeLine (currentLine e) reverse ?e0 = Inr (stop, e1)" by blast
  from executeLine_effect[OF x] obtain outs ev where
    f1: "lineFrame ?e0 e1" and d1: "dbg e1 = dbg e @ outs @ (if stop then [ev] else [])"
    and o1: "\<forall>u \<in> set outs. isOutput u" by auto
  show ?thesis
  proof (cases stop)
    case True
    from x True have xt: "executeLine (currentLine e) reverse ?e0 = Inr (True, e1)" by simp
    from executeLine_stop_kind[OF xt] obtain outs' ev' where
      k: "dbg e1 = dbg e @ outs' @ [ev']" "\<forall>u \<in> set outs'. isOutput u" "isStop ev'"
         "\<forall>l c. ev' \<noteq> OnStopOnStep l c" by auto
    have nx: "Next reverse e = Inr e1" using n x True by (simp add: Next_def)
    have fs: "filter isStop (outs' @ [ev']) = [ev']" using k(2,3) by (simp add: filter_stop_outputs)
    have ns: "\<forall>l c. OnStopOnStep l c \<notin> set (outs' @ [ev'])" using k(2,4) by auto
    show ?thesis
      apply (rule exI[of _ ?e0], rule exI[of _ stop], rule exI[of _ e1], rule exI[of _ e1],
             rule exI[of _ "outs' @ [ev']"])
      using n x nx k(1) fs ns True by simp
  next
    case False
    obtain fin e2 where u: "updateCurrentLine reverse e1 = (fin, e2)"
      by (cases "updateCurrentLine reverse e1") auto
    have cl1: "0 \<le> currentLine e1" "currentLine e1 < int (length (sourceLines e1))"
      "length (starts e1) = length (sourceLines e1)" "length (ends e1) = length (sourceLines e1)"
      "currentLine e1 = currentLine e"
      using wf f1 by (simp_all add: onLine_def lineFrame_def)
    from updateCurrentLine_effect[OF u] obtain new2 where
      u2: "starts e2 = starts e1" "ends e2 = ends e1" "sourceLines e2 = sourceLines e1" "dbg e2 = dbg e1 @ new2"
      and c2: "\<not> fin \<longrightarrow> 0 \<le> currentLine e2 \<and> currentLine e2 < int (length (sourceLines e1))"
      using cl1 by auto
    have q2: "(reverse \<longrightarrow> 0 < currentLine e) \<longrightarrow> new2 = []"
      using updateCurrentLine_quiet[OF u] u2(4) cl1(5) by auto
    have "\<exists>found e3 new3. (if \<not> fin then findNextStatement reverse e2 else Inr (False, e2)) = Inr (found, e3) \<and>
        dbg e3 = dbg e2 @ new3 \<and> (\<not> found \<longrightarrow> new3 = [])"
    proof (cases fin)
      case True
      then show ?thesis by auto
    next
      case nf: False
      have "\<exists>found e' new. findNextFrom reverse (currentLine e2) e2 = Inr (found, e') \<and> dbg e' = dbg e2 @ new \<and>
          currentCol e' = currentCol e2 \<and> (\<not> found \<longrightarrow> new = [])"
        using cl1 u2 c2 nf by (intro findNextFrom_events) simp_all
      then show ?thesis using nf by (auto simp: findNextStatement_def)
    qed
    then obtain found e3 new3 where
      f: "(if \<not> fin then findNextStatement reverse e2 else Inr (False, e2)) = Inr (found, e3)"
      and d3: "dbg e3 = dbg e2 @ new3" and q3: "\<not> found \<longrightarrow> new3 = []" by blast
    let ?e' = "emit (OnStopOnStep (currentLine e3) (currentCol e3)) e3"
    let ?new = "outs @ new2 @ new3 @ [OnStopOnStep (currentLine e3) (currentCol e3)]"
    have nx: "Next reverse e = Inr ?e'" using n x False u f by (simp add: Next_def)
    have de: "dbg ?e' = dbg e @ ?new" using d1 u2(4) d3 False by (simp add: emit_def)
    have cc: "currentLine ?e' = currentLine e3" "currentCol ?e' = currentCol e3" by (simp_all add: emit_def)
    have ge: "1 \<le> length (filter isStop ?new)" by simp
    have one: "filter isStop ?new = [OnStopOnStep (currentLine e3) (currentCol e3)]"
      if h: "reverse \<longrightarrow> 0 < currentLine e"
        "\<not> fst (updateCurrentLine reverse e1) \<longrightarrow>
          (\<forall>e3. findNextStatement reverse (snd (updateCurrentLine reverse e1)) \<noteq> Inr (True, e3))"
    proof -
      have n2: "new2 = []" using q2 h(1) by simp
      have "\<not> found" using h(2) f u by (cases fin) auto
      then have n3: "new3 = []" using q3 by simp
      show ?thesis using n2 n3 o1 by (simp add: filter_stop_outputs)
    qed
    show ?thesis
      apply (rule exI[of _ ?e0], rule exI[of _ stop], rule exI[of _ e1], rule exI[of _ ?e'],
             rule exI[of _ ?new])
      using n x nx de ge False cc one by simp
  qed
qed

lemma ts_executeLine_nostop:
  assumes "ts_executeLine ln reverse r = (False, r1)"
  shows "ts_currentLine r1 = ts_currentLine r \<and> ts_sourceLines r1 = ts_sourceLines r \<and>
         (\<exists>outs. ts_events r1 = ts_events r @ outs \<and> filter ts_isStop outs = [])"
proof -
  obtain hit ip where sc: "(if reverse
            then (case at (ts_starts r) ln of
                    Some start \<Rightarrow> scanReverse (ts_instructionBreakpoints r) start (ts_instruction r)
                  | None \<Rightarrow> (False, ts_instruction r))
            else (case at (ts_ends r) ln of
                    Some end \<Rightarrow> scanForward (ts_instructionBreakpoints r) end (ts_instruction r)
                  | None \<Rightarrow> (False, ts_instruction r))) = (hit, ip)"
    by (cases "(if reverse
            then (case at (ts_starts r) ln of
                    Some start \<Rightarrow> scanReverse (ts_instructionBreakpoints r) start (ts_instruction r)
                  | None \<Rightarrow> (False, ts_instruction r))
            else (case at (ts_ends r) ln of
                    Some end \<Rightarrow> scanForward (ts_instructionBreakpoints r) end (ts_instruction r)
                  | None \<Rightarrow> (False, ts_instruction r)))") auto
  let ?line = "ts_getLine r ln"
  obtain s2 r2 where rw: "ts_rwVarLoop (rwFindAll True 0 ?line) (r\<lparr> ts_instruction := ip \<rparr>) = (s2, r2)"
    by (cases "ts_rwVarLoop (rwFindAll True 0 ?line) (r\<lparr> ts_instruction := ip \<rparr>)") auto
  from assms sc rw have nh: "\<not> hit" and ns: "\<not> s2"
    and ex: "ts_exceptionCheck ?line (ts_outputLoop ln (logFindAll 0 0 ?line) r2) = (False, r1)"
    by (auto simp: ts_executeLine_def Let_def split: if_splits)
  from ts_rwVarLoop_effect[OF rw] ns have f2: "ts_lineFrame r r2" and d2: "ts_events r2 = ts_events r"
    by (auto simp: ts_lineFrame_def)
  let ?outs = "map (\<lambda>(cat, payload, i). TsOutput cat payload (ts_sourceFile r2) ln (int i)) (logFindAll 0 0 ?line)"
  from ex have r1: "r1 = ts_outputLoop ln (logFindAll 0 0 ?line) r2"
    by (auto simp: ts_exceptionCheck_def Let_def split: option.splits if_splits)
  have "filter ts_isStop ?outs = []" by (auto simp: filter_empty_conv)
  then show ?thesis using f2 d2
    by (auto simp: r1 ts_outputLoop_effect ts_lineFrame_def)
qed

lemma ts_executeLine_stop:
  assumes "ts_executeLine ln reverse r = (True, r1)"
  shows "\<exists>outs ev. ts_events r1 = ts_events r @ outs @ [ev] \<and> filter ts_isStop outs = [] \<and> ts_isStop ev"
proof -
  obtain hit ip where sc: "(if reverse
            then (case at (ts_starts r) ln of
                    Some start \<Rightarrow> scanReverse (ts_instructionBreakpoints r) start (ts_instruction r)
                  | None \<Rightarrow> (False, ts_instruction r))
            else (case at (ts_ends r) ln of
                    Some end \<Rightarrow> scanForward (ts_instructionBreakpoints r) end (ts_instruction r)
                  | None \<Rightarrow> (False, ts_instruction r))) = (hit, ip)"
    by (cases "(if reverse
            then (case at (ts_starts r) ln of
                    Some start \<Rightarrow> scanReverse (ts_instructionBreakpoints r) start (ts_instruction r)
                  | None \<Rightarrow> (False, ts_instruction r))
            else (case at (ts_ends r) ln of
                    Some end \<Rightarrow> scanForward (ts_instructionBreakpoints r) end (ts_instruction r)
                  | None \<Rightarrow> (False, ts_instruction r)))") auto
  let ?line = "ts_getLine r ln"
  show ?thesis
  proof (cases hit)
    case True
    with assms sc have "r1 = sendEvent (TsStopOnInstructionBreakpoint (ts_currentLine r) (ts_currentColumn r))
         (r\<lparr> ts_instruction := ip \<rparr>)"
      by (auto simp: ts_executeLine_def Let_def)
    then show ?thesis
      by (intro exI[of _ "[]"] exI[of _ "TsStopOnInstructionBreakpoint (ts_currentLine r) (ts_currentColumn r)"])
         (simp add: sendEvent_def)
  next
    case nh: False
    obtain s2 r2 where rw: "ts_rwVarLoop (rwFindAll True 0 ?line) (r\<lparr> ts_instruction := ip \<rparr>) = (s2, r2)"
      by (cases "ts_rwVarLoop (rwFindAll True 0 ?line) (r\<lparr> ts_instruction := ip \<rparr>)") auto
    from ts_rwVarLoop_effect[OF rw] obtain a where
      "ts_events r2 = ts_events (r\<lparr> ts_instruction := ip \<rparr>) @
         (if s2 then [TsStopOnDataBreakpoint a (ts_currentLine (r\<lparr> ts_instruction := ip \<rparr>))
                        (ts_currentColumn (r\<lparr> ts_instruction := ip \<rparr>))] else [])"
      by blast
    then have d2: "ts_events r2 = ts_events r @
        (if s2 then [TsStopOnDataBreakpoint a (ts_currentLine r) (ts_currentColumn r)] else [])"
      by simp
    show ?thesis
    proof (cases s2)
      case True
      with assms sc rw nh have "r1 = r2" by (auto simp: ts_executeLine_def Let_def)
      then show ?thesis using d2 True
        by (intro exI[of _ "[]"] exI[of _ "TsStopOnDataBreakpoint a (ts_currentLine r) (ts_currentColumn r)"]) simp
    next
      case ns: False
      let ?outs = "map (\<lambda>(cat, payload, i). TsOutput cat payload (ts_sourceFile r2) ln (int i)) (logFindAll 0 0 ?line)"
      let ?r3 = "ts_outputLoop ln (logFindAll 0 0 ?line) r2"
      from assms sc rw nh ns have ex: "ts_exceptionCheck ?line ?r3 = (True, r1)"
        by (auto simp: ts_executeLine_def Let_def)
      have e3: "ts_events ?r3 = ts_events r @ ?outs" using d2 ns by (simp add: ts_outputLoop_effect)
      from ex obtain x where "r1 = sendEvent (TsStopOnException x (ts_currentLine ?r3) (ts_currentColumn ?r3)) ?r3"
        by (auto simp: ts_exceptionCheck_def Let_def split: option.splits if_splits)
      then have "ts_events r1 = ts_events r @ ?outs @ [TsStopOnException x (ts_currentLine ?r3) (ts_currentColumn ?r3)]"
        using e3 by (simp add: sendEvent_def)
      moreover have "filter ts_isStop ?outs = []" by (auto simp: filter_empty_conv)
      ultimately show ?thesis
        by (intro exI[of _ ?outs] exI[of _ "TsStopOnException x (ts_currentLine ?r3) (ts_currentColumn ?r3)"]) simp
    qed
  qed
qed

lemma afterLoop_step:
  "\<exists>new. ts_events (snd (afterLoop True r)) = ts_events r @ new \<and> length (filter ts_isStop new) = 1"
  by (simp add: afterLoop_def sendEvent_def)

lemma set_currentLine_events [simp]: "ts_events (set_currentLine x r) = ts_events r"
  by (simp add: set_currentLine_def)

lemma ts_findNextFrom_step:
  "stepEvent \<Longrightarrow>
   \<exists>new. ts_events (snd (ts_findNextFrom reverse stepEvent ln r)) = ts_events r @ new \<and>
         length (filter ts_isStop new) = 1"
proof (induction reverse stepEvent ln r rule: ts_findNextFrom.induct)
  case (1 reverse stepEvent ln r)
  show ?case
  proof (cases "if reverse then 0 \<le> ln else ln < int (length (ts_sourceLines r))")
    case False
    then show ?thesis using "1.prems" afterLoop_step[of r]
      by (subst ts_findNextFrom.simps) simp
  next
    case inr: True
    show ?thesis
    proof (cases "case ts_breakPoints r (ts_sourceFile r) of None \<Rightarrow> None
               | Some blist \<Rightarrow> find (\<lambda>bp. Line bp = ln) blist")
      case (Some bp)
      then show ?thesis using inr
        by (subst ts_findNextFrom.simps) (auto simp: Let_def sendEvent_def set_currentLine_def)
    next
      case None
      let ?ib = "case (if reverse then at (ts_starts r) ln
                       else map_option (\<lambda>v. v - 1) (at (ts_ends r) ln)) of
                   Some addr \<Rightarrow> addr \<in> ts_instructionBreakpoints r
                 | None \<Rightarrow> False"
      show ?thesis
      proof (cases ?ib)
        case True
        then show ?thesis using inr None
          by (subst ts_findNextFrom.simps) (simp add: Let_def sendEvent_def set_currentLine_def)
      next
        case nib: False
        show ?thesis
        proof (cases "ts_getLine r ln \<noteq> []")
          case True
          then show ?thesis using inr None nib "1.prems" afterLoop_step[of "set_currentLine ln r"]
            by (subst ts_findNextFrom.simps) simp
        next
          case blank: False
          from "1.IH"[OF inr None nib blank "1.prems"] show ?thesis using inr None nib blank
            by (subst ts_findNextFrom.simps) simp
        qed
      qed
    qed
  qed
qed

lemma ts_step_events:
  "\<exists>new. ts_events (ts_step False reverse r) = ts_events r @ new \<and>
     (if fst (ts_executeLine (ts_currentLine r) reverse r) \<or> reverse \<or>
         ts_currentLine r < int (length (ts_sourceLines r)) - 1
      then length (filter ts_isStop new) = 1
      else filter ts_isStop new = [] \<and> new \<noteq> [] \<and> last new = TsEnd)"
proof -
  obtain stop r1 where x: "ts_executeLine (ts_currentLine r) reverse r = (stop, r1)"
    by (cases "ts_executeLine (ts_currentLine r) reverse r") auto
  show ?thesis
  proof (cases stop)
    case True
    with x have xt: "ts_executeLine (ts_currentLine r) reverse r = (True, r1)" by simp
    from ts_executeLine_stop[OF xt] obtain outs ev where
      k: "ts_events r1 = ts_events r @ outs @ [ev]" "filter ts_isStop outs = []" "ts_isStop ev" by blast
    have "ts_step False reverse r = r1" using xt by (simp add: ts_step_def)
    then show ?thesis using k xt by (intro exI[of _ "outs @ [ev]"]) simp
  next
    case False
    with x have xf: "ts_executeLine (ts_currentLine r) reverse r = (False, r1)" by simp
    from ts_executeLine_nostop[OF xf] obtain outs where
      o: "ts_currentLine r1 = ts_currentLine r" "ts_sourceLines r1 = ts_sourceLines r"
         "ts_events r1 = ts_events r @ outs" "filter ts_isStop outs = []" by blast
    obtain fin r2 where u: "ts_updateCurrentLine reverse r1 = (fin, r2)"
      by (cases "ts_updateCurrentLine reverse r1") auto
    show ?thesis
    proof (cases fin)
      case True
      have st: "ts_step False reverse r = r2" using xf u True by (simp add: ts_step_def)
      show ?thesis
      proof (cases reverse)
        case rev: True
        from u True rev have "ts_events r2 = ts_events r1 @ [TsStopOnEntry]"
          by (auto simp: ts_updateCurrentLine_def sendEvent_def split: if_splits)
        then show ?thesis using st o xf rev by (intro exI[of _ "outs @ [TsStopOnEntry]"]) simp
      next
        case fwd: False
        from u True fwd have "ts_events r2 = ts_events r1 @ [TsEnd]"
          and "\<not> ts_currentLine r1 < int (length (ts_sourceLines r1)) - 1"
          by (auto simp: ts_updateCurrentLine_def sendEvent_def split: if_splits)
        then show ?thesis using st o xf fwd by (intro exI[of _ "outs @ [TsEnd]"]) simp
      qed
    next
      case nf: False
      have st: "ts_step False reverse r = snd (ts_findNextFrom reverse True (ts_currentLine r2) r2)"
        using xf u nf by (simp add: ts_step_def ts_findNextStatement_def)
      from u nf have e2: "ts_events r2 = ts_events r1"
        and cond: "reverse \<or> ts_currentLine r1 < int (length (ts_sourceLines r1)) - 1"
        by (auto simp: ts_updateCurrentLine_def split: if_splits)
      from ts_findNextFrom_step[of True reverse "ts_currentLine r2" r2] obtain new where
        n: "ts_events (snd (ts_findNextFrom reverse True (ts_currentLine r2) r2)) = ts_events r2 @ new"
           "length (filter ts_isStop new) = 1" by auto
      show ?thesis using st e2 cond o n by (intro exI[of _ "outs @ new"]) auto
    qed
  qed
qed

text \<open>
  Claim C2, as the code has it. In the Go engine, on a loaded source with the current
  line within it, \<^verbatim>\<open>Next\<close> returns without a panic and sends at least one stop event.
  When \<^verbatim>\<open>executeLine\<close> stops, the engine is left as \<^verbatim>\<open>executeLine\<close> left it and the
  call has sent exactly one stop event, which is not a step event. When it does not
  stop, and neither the line advance raises the entry stop (a reverse step on line 0)
  nor the statement scan stops on a breakpoint, the call sends exactly one stop event:
  the step event at the resulting line and column, as its last event. In the
  TypeScript runtime a \<^verbatim>\<open>step\<close> by line, from any state and in both directions, sends
  exactly one stop event, except the forward step from the last line whose
  \<^verbatim>\<open>executeLine\<close> does not stop: that one sends no stop event and ends with \<^verbatim>\<open>end\<close>.
  A \<^verbatim>\<open>step\<close> by instruction moves the instruction pointer and sends one step event.
\<close>

theorem Next_stop_events:
  "(onLine e \<longrightarrow>
      (\<exists>e0 stop e1 e' new.
         normalize reverse e = Inr e0 \<and> executeLine (currentLine e) reverse e0 = Inr (stop, e1) \<and>
         Next reverse e = Inr e' \<and> dbg e' = dbg e @ new \<and> 1 \<le> length (filter isStop new) \<and>
         (stop \<longrightarrow> e' = e1 \<and> length (filter isStop new) = 1 \<and> (\<forall>l c. OnStopOnStep l c \<notin> set new)) \<and>
         (\<not> stop \<and> (reverse \<longrightarrow> 0 < currentLine e) \<and>
          (\<not> fst (updateCurrentLine reverse e1) \<longrightarrow>
             (\<forall>e3. findNextStatement reverse (snd (updateCurrentLine reverse e1)) \<noteq> Inr (True, e3))) \<longrightarrow>
            filter isStop new = [OnStopOnStep (currentLine e') (currentCol e')] \<and>
            last new = OnStopOnStep (currentLine e') (currentCol e')))) \<and>
   (\<exists>new. ts_events (ts_step False reverse r) = ts_events r @ new \<and>
      (if fst (ts_executeLine (ts_currentLine r) reverse r) \<or> reverse \<or>
          ts_currentLine r < int (length (ts_sourceLines r)) - 1
       then length (filter ts_isStop new) = 1
       else filter ts_isStop new = [] \<and> new \<noteq> [] \<and> last new = TsEnd)) \<and>
   ts_events (ts_step True reverse r) =
      ts_events r @ [TsStopOnStep (ts_currentLine r) (ts_currentColumn r)]"
proof (intro conjI impI)
  assume "onLine e"
  then show "\<exists>e0 stop e1 e' new.
         normalize reverse e = Inr e0 \<and> executeLine (currentLine e) reverse e0 = Inr (stop, e1) \<and>
         Next reverse e = Inr e' \<and> dbg e' = dbg e @ new \<and> 1 \<le> length (filter isStop new) \<and>
         (stop \<longrightarrow> e' = e1 \<and> length (filter isStop new) = 1 \<and> (\<forall>l c. OnStopOnStep l c \<notin> set new)) \<and>
         (\<not> stop \<and> (reverse \<longrightarrow> 0 < currentLine e) \<and>
          (\<not> fst (updateCurrentLine reverse e1) \<longrightarrow>
             (\<forall>e3. findNextStatement reverse (snd (updateCurrentLine reverse e1)) \<noteq> Inr (True, e3))) \<longrightarrow>
            filter isStop new = [OnStopOnStep (currentLine e') (currentCol e')] \<and>
            last new = OnStopOnStep (currentLine e') (currentCol e'))"
    by (rule Next_events)
next
  show "\<exists>new. ts_events (ts_step False reverse r) = ts_events r @ new \<and>
      (if fst (ts_executeLine (ts_currentLine r) reverse r) \<or> reverse \<or>
          ts_currentLine r < int (length (ts_sourceLines r)) - 1
       then length (filter ts_isStop new) = 1
       else filter ts_isStop new = [] \<and> new \<noteq> [] \<and> last new = TsEnd)"
    by (rule ts_step_events)
next
  show "ts_events (ts_step True reverse r) =
      ts_events r @ [TsStopOnStep (ts_currentLine r) (ts_currentColumn r)]"
    by (simp add: ts_step_def sendEvent_def Let_def)
qed

text \<open>
  The claim as stated (exactly one stop event per call, never none and never two) fails:
  a forward step of the TypeScript runtime on the last line sends \<^verbatim>\<open>end\<close> and no
  stop; a reverse \<^verbatim>\<open>Next\<close> of the Go engine on line 0 sends the entry stop of the line
  advance and then the step stop.
\<close>

theorem Next_stop_count_counterexample:
  "ts_events (ts_step False False (initializeContents ''alpha'' ts_new)) = [TsEnd] \<and>
   (case Next True (LoadSource (\<lambda>p. p) ''/prog.md'' ''alpha\<newline>beta'' New) of
      Inr e' \<Rightarrow> dbg e' = [OnStopOnEntry 0 None, OnStopOnStep 0 None]
    | Inl p \<Rightarrow> False)"
  by (simp add: text_eval go_eval ts_eval)

text \<open>
  The theorem at a source of two lines: \<^verbatim>\<open>Next\<close> from line 0 sends one step stop at
  line 1; with an instruction breakpoint at address 1 it sends that stop alone. The
  TypeScript \<^verbatim>\<open>step\<close> from line 0 sends one step stop at line 1, and on the only
  line \<^verbatim>\<open>log(a)\<close> it sends the output and \<^verbatim>\<open>end\<close>.
\<close>

theorem Next_stop_events_witness:
  "onLine (LoadSource (\<lambda>p. p) ''/prog.md'' ''alpha\<newline>beta'' New) \<and>
   (case Next False (LoadSource (\<lambda>p. p) ''/prog.md'' ''alpha\<newline>beta'' New) of
      Inr e' \<Rightarrow> dbg e' = [OnStopOnStep 1 None] \<and> currentLine e' = 1
    | Inl p \<Rightarrow> False) \<and>
   (case Next False (snd (SetInstructionBreakpoint 1
           (LoadSource (\<lambda>p. p) ''/prog.md'' ''alpha\<newline>beta'' New))) of
      Inr e' \<Rightarrow> dbg e' = [OnStopOnInstructionBreakpoint 0 None] \<and> currentLine e' = 0
    | Inl p \<Rightarrow> False) \<and>
   ts_events (ts_step False False (initializeContents ''alpha\<newline>beta'' ts_new)) = [TsStopOnStep 1 None] \<and>
   \<not> fst (ts_executeLine (ts_currentLine (initializeContents ''log(a)'' ts_new)) False
           (initializeContents ''log(a)'' ts_new)) \<and>
   ts_events (ts_step False False (initializeContents ''log(a)'' ts_new)) = [TsOutput ''log'' ''a'' [] 0 0, TsEnd]"
  using Next_stop_events [of "LoadSource (\<lambda>p. p) ''/prog.md'' ''alpha\<newline>beta'' New" False
      "initializeContents ''log(a)'' ts_new"]
  by (simp add: text_eval go_eval ts_eval onLine_def)

section \<open>Stepping before a source is loaded\<close>

text \<open>
  Claim C9 asks that every stepping operation completes on an engine that has loaded no
  source. The code does not: in the Go engine \<^verbatim>\<open>Continue\<close> and \<^verbatim>\<open>Next\<close> panic in
  \<^verbatim>\<open>executeLine\<close>, which reads \<^verbatim>\<open>e.starts[0]\<close> of an empty slice (its
  \<^verbatim>\<open>getLine\<close>, \<^verbatim>\<open>Pause\<close>, \<^verbatim>\<open>StepIn\<close> and \<^verbatim>\<open>StepOut\<close> are safe); in the C\# engine
  \<^verbatim>\<open>GetLine\<close> throws from \<^verbatim>\<open>Math.Clamp\<close>, and \<^verbatim>\<open>Pause\<close> with it, and \<^verbatim>\<open>StepIn\<close>
  with a column set reads a line that is not there; in the TypeScript runtime the
  second \<^verbatim>\<open>stepIn\<close> without a target throws a \<^verbatim>\<open>TypeError\<close>.
\<close>

theorem stepping_before_load_fails:
  "Continue False New = Some (Inl IndexOutOfRange) \<and>
   Continue True New = Some (Inl IndexOutOfRange) \<and>
   Next False New = Inl IndexOutOfRange \<and>
   Next True New = Inl IndexOutOfRange \<and>
   getLine New 0 = [] \<and>
   dbg (Pause New) = [OnOutput ''stdout'' [] [] 0 0, OnStopOnPause 0 None] \<and>
   dbg (StepOut (StepIn None (StepIn None New))) =
     [OnStopOnStep 0 (Some 1), OnStopOnStep 0 (Some 2), OnStopOnStep 0 (Some 1)] \<and>
   GetLine cs_new 0 = Inl ArgumentException \<and>
   cs_Pause cs_new = Inl ArgumentException \<and>
   (case cs_StepIn None cs_new of
      Inr d \<Rightarrow> cs_StepIn None d = Inl IndexOutOfRangeException
    | Inl x \<Rightarrow> False) \<and>
   (case ts_stepIn None ts_new of
      Inr r \<Rightarrow> ts_stepIn None r = Inl TypeError
    | Inl x \<Rightarrow> False) \<and>
   ts_getLine ts_new 0 = []"
  by (simp add: text_eval go_eval ts_eval wrap64_def cs_new_def GetLine_def Clamp_def cs_Pause_def
        cs_StepIn_def cs_emit_def)

end
